theory Spec2Isabelle
  imports Complex_Main "HOL-Library.AList" "HOL-Library.Char_ord" "HOL-Library.List_Lexorder" "HOL-Library.Multiset" "HOL-Library.Sublist"
begin

section \<open>Agent orchestrator: tasks, locks, heartbeats and stale recovery\<close>

text \<open>
  The model follows \<^verbatim>\<open>infrastructure/agent_orchestrator.py\<close>. The two files of the
  orchestrator (\<^verbatim>\<open>tasks.json\<close> and \<^verbatim>\<open>events.jsonl\<close>) are fields of a
  \<open>world\<close>; the wall clock and the \<^verbatim>\<open>uuid4\<close> generator are the environment:
  \<open>clock w n\<close> is the value of the \<open>n\<close>-th reading of \<^verbatim>\<open>datetime.now\<close> and
  \<open>uuids w n\<close> the hex string of the \<open>n\<close>-th \<^verbatim>\<open>uuid4()\<close>; both are arbitrary.
  A timestamp is an integer number of microseconds (the resolution of \<^verbatim>\<open>datetime\<close>);
  \<^verbatim>\<open>isoformat\<close> followed by \<^verbatim>\<open>parse_timestamp\<close> is the identity on it.
\<close>

text \<open>JSON values: what \<^verbatim>\<open>json.load\<close> returns and \<^verbatim>\<open>json.dump\<close> accepts. A dictionary
  is the list of its items.\<close>

datatype json =
    JNull
  | JBool bool
  | JInt int
  | JFloat real
  | JStr string
  | JArr "json list"
  | JObj "(string \<times> json) list"

type_synonym payload = "(string \<times> json) list"

datatype error =
    KeyError string
  | ValueError string
  | RuntimeError string
  | AttributeError string
  | TypeError string

record task =
  task_id :: string
  title :: string
  payload :: payload
  created_at :: int
  created_by :: string
  status :: string
  lock_owner :: "string option"
  lock_acquired_at :: "int option"
  heartbeat_at :: "int option"
  completed_at :: "int option"
  failure_reason :: "json option"

record event =
  event_id :: string
  timestamp :: int
  etype :: string
  ev_task_id :: string
  actor :: string
  metadata :: "(string \<times> json) list"

record world =
  tasks_file :: "(string \<times> task) list"
  events_file :: "event list"
  clock :: "nat \<Rightarrow> int"
  ticks :: nat
  uuids :: "nat \<Rightarrow> string"
  draws :: nat

text \<open>The constructor arguments of \<^verbatim>\<open>AgentOrchestrator\<close> that the operations read. The
  hook returns \<open>None\<close> when it returns normally and \<open>Some msg\<close> when it raises an exception
  whose \<^verbatim>\<open>str\<close> is \<open>msg\<close>.\<close>

record config =
  stale_after_seconds :: int
  event_hook :: "(event \<Rightarrow> string option) option"

definition stale_after :: "config \<Rightarrow> int" where
  "stale_after cfg = stale_after_seconds cfg * 1000000"

definition utc_now :: "world \<Rightarrow> int \<times> world" where
  "utc_now w = (clock w (ticks w), w\<lparr>ticks := Suc (ticks w)\<rparr>)"

definition uuid4_hex :: "world \<Rightarrow> string \<times> world" where
  "uuid4_hex w = (uuids w (draws w), w\<lparr>draws := Suc (draws w)\<rparr>)"

text \<open>Python truthiness of an \<^verbatim>\<open>Optional[str]\<close>: \<^verbatim>\<open>None\<close> and \<^verbatim>\<open>""\<close> are falsy.\<close>

definition truthy :: "string option \<Rightarrow> bool" where
  "truthy x = (case x of None \<Rightarrow> False | Some s \<Rightarrow> s \<noteq> [])"

definition load_tasks :: "world \<Rightarrow> (string \<times> task) list" where
  "load_tasks w = tasks_file w"

text \<open>\<^verbatim>\<open>json.dump(tasks, f, sort_keys=True)\<close>: the file lists the tasks by ascending id.\<close>

definition save_tasks :: "(string \<times> task) list \<Rightarrow> world \<Rightarrow> world" where
  "save_tasks ts w = w\<lparr>tasks_file := sort_key fst ts\<rparr>"

definition log_event :: "config \<Rightarrow> string \<Rightarrow> string \<Rightarrow> string \<Rightarrow> (string \<times> json) list \<Rightarrow> world \<Rightarrow> world" where
  "log_event cfg event_type tid act md w =
     (let (u, w1) = uuid4_hex w;
          (t, w2) = utc_now w1;
          ev = \<lparr>event_id = ''event_'' @ take 10 u, timestamp = t, etype = event_type,
                ev_task_id = tid, actor = act, metadata = md\<rparr>;
          w3 = w2\<lparr>events_file := events_file w2 @ [ev]\<rparr>
      in case event_hook cfg of
           None \<Rightarrow> w3
         | Some hook \<Rightarrow>
             (case hook ev of
                None \<Rightarrow> w3
              | Some exc \<Rightarrow>
                  (let (u', w4) = uuid4_hex w3;
                       (t', w5) = utc_now w4;
                       fallback = \<lparr>event_id = ''event_'' @ take 10 u', timestamp = t',
                                   etype = ''event_hook_error'', ev_task_id = tid,
                                   actor = ''orchestrator'',
                                   metadata = [(''error'', JStr exc),
                                               (''source_event_type'', JStr event_type)]\<rparr>
                   in w5\<lparr>events_file := events_file w5 @ [fallback]\<rparr>)))"

definition get_task_or_raise :: "(string \<times> task) list \<Rightarrow> string \<Rightarrow> error + task" where
  "get_task_or_raise ts tid =
     (case map_of ts tid of
        None \<Rightarrow> Inl (KeyError (''Unknown task_id: '' @ tid))
      | Some t \<Rightarrow> Inr t)"

text \<open>\<^verbatim>\<open>_recover_stale_lock\<close> mutates the task dictionary it is given and logs; it does not
  save. The model returns the flag, the task after the mutation and the world after the log.\<close>

definition recover_stale_lock :: "config \<Rightarrow> task \<Rightarrow> string \<Rightarrow> world \<Rightarrow> bool \<times> task \<times> world" where
  "recover_stale_lock cfg t tid w =
     (case (lock_owner t, heartbeat_at t) of
        (Some owner, Some heartbeat) \<Rightarrow>
          if owner = [] then (False, t, w)
          else
            (let (now, w1) = utc_now w in
             if now - heartbeat \<le> stale_after cfg then (False, t, w1)
             else (True,
                   t\<lparr>status := ''pending'', lock_owner := None, lock_acquired_at := None,
                     heartbeat_at := None\<rparr>,
                   log_event cfg ''lock_recovered'' tid ''orchestrator''
                     [(''previous_owner'', JStr owner)] w1))
      | _ \<Rightarrow> (False, t, w))"

definition create_task :: "config \<Rightarrow> string \<Rightarrow> payload \<Rightarrow> string \<Rightarrow> world \<Rightarrow> task \<times> world" where
  "create_task cfg ttl pl creator w =
     (let ts = load_tasks w;
          (u, w1) = uuid4_hex w;
          (now, w2) = utc_now w1;
          t = \<lparr>task_id = ''task_'' @ take 12 u, title = ttl, payload = pl, created_at = now,
               created_by = creator, status = ''pending'', lock_owner = None,
               lock_acquired_at = None, heartbeat_at = None, completed_at = None,
               failure_reason = None\<rparr>;
          w3 = save_tasks (AList.update (task_id t) t ts) w2
      in (t, log_event cfg ''task_created'' (task_id t) creator [(''title'', JStr ttl)] w3))"

definition claim_task :: "config \<Rightarrow> string \<Rightarrow> string \<Rightarrow> world \<Rightarrow> error + (bool \<times> world)" where
  "claim_task cfg tid agent_id w =
     (let ts = load_tasks w in
      case get_task_or_raise ts tid of
        Inl e \<Rightarrow> Inl e
      | Inr t0 \<Rightarrow>
          (let (r, t, w1) = recover_stale_lock cfg t0 tid w in
           if status t = ''completed'' \<or> status t = ''failed'' then Inr (False, w1)
           else if truthy (lock_owner t) \<and> lock_owner t \<noteq> Some agent_id then Inr (False, w1)
           else
             (let (now, w2) = utc_now w1;
                  t' = t\<lparr>status := ''in_progress'', lock_owner := Some agent_id,
                         lock_acquired_at := Some now, heartbeat_at := Some now\<rparr>;
                  w3 = save_tasks (AList.update tid t' ts) w2
              in Inr (True, log_event cfg ''task_claimed'' tid agent_id [] w3))))"

definition heartbeat :: "config \<Rightarrow> string \<Rightarrow> string \<Rightarrow> world \<Rightarrow> error + (bool \<times> world)" where
  "heartbeat cfg tid agent_id w =
     (let ts = load_tasks w in
      case get_task_or_raise ts tid of
        Inl e \<Rightarrow> Inl e
      | Inr t0 \<Rightarrow>
          (let (r, t, w1) = recover_stale_lock cfg t0 tid w in
           if lock_owner t \<noteq> Some agent_id then Inr (False, w1)
           else
             (let (now, w2) = utc_now w1;
                  t' = t\<lparr>heartbeat_at := Some now\<rparr>;
                  w3 = save_tasks (AList.update tid t' ts) w2
              in Inr (True, log_event cfg ''heartbeat'' tid agent_id [] w3))))"

definition complete_task :: "config \<Rightarrow> string \<Rightarrow> string \<Rightarrow> world \<Rightarrow> error + (bool \<times> world)" where
  "complete_task cfg tid agent_id w =
     (let ts = load_tasks w in
      case get_task_or_raise ts tid of
        Inl e \<Rightarrow> Inl e
      | Inr t0 \<Rightarrow>
          (let (r, t, w1) = recover_stale_lock cfg t0 tid w in
           if lock_owner t \<noteq> Some agent_id then Inr (False, w1)
           else
             (let (now, w2) = utc_now w1;
                  t' = t\<lparr>status := ''completed'', completed_at := Some now, lock_owner := None,
                         lock_acquired_at := None, heartbeat_at := None\<rparr>;
                  w3 = save_tasks (AList.update tid t' ts) w2
              in Inr (True, log_event cfg ''task_completed'' tid agent_id [] w3))))"

definition fail_task :: "config \<Rightarrow> string \<Rightarrow> string \<Rightarrow> json \<Rightarrow> world \<Rightarrow> error + (bool \<times> world)" where
  "fail_task cfg tid agent_id reason w =
     (let ts = load_tasks w in
      case get_task_or_raise ts tid of
        Inl e \<Rightarrow> Inl e
      | Inr t0 \<Rightarrow>
          (let (r, t, w1) = recover_stale_lock cfg t0 tid w in
           if lock_owner t \<noteq> Some agent_id then Inr (False, w1)
           else
             (let t' = t\<lparr>status := ''failed'', failure_reason := Some reason, lock_owner := None,
                         lock_acquired_at := None, heartbeat_at := None\<rparr>;
                  w3 = save_tasks (AList.update tid t' ts) w1
              in Inr (True, log_event cfg ''task_failed'' tid agent_id [(''reason'', reason)] w3))))"

text \<open>The loop of \<^verbatim>\<open>recover_stale_tasks\<close> over \<^verbatim>\<open>tasks.items()\<close>: the ids recovered, the
  items after the in-place mutations, and the world after the logs.\<close>

fun recover_loop :: "config \<Rightarrow> (string \<times> task) list \<Rightarrow> world \<Rightarrow> string list \<times> (string \<times> task) list \<times> world" where
  "recover_loop cfg [] w = ([], [], w)"
| "recover_loop cfg ((tid, t) # rest) w =
     (let (r, t', w1) = recover_stale_lock cfg t tid w;
          (recovered, rest', w2) = recover_loop cfg rest w1
      in ((if r then tid # recovered else recovered), (tid, t') # rest', w2))"

definition recover_stale_tasks :: "config \<Rightarrow> world \<Rightarrow> string list \<times> world" where
  "recover_stale_tasks cfg w =
     (let ts = load_tasks w;
          (recovered, ts', w1) = recover_loop cfg ts w
      in (recovered, save_tasks ts' w1))"


definition list_tasks :: "world \<Rightarrow> task list" where
  "list_tasks w = map snd (load_tasks w)"

subsection \<open>Sequences of operations\<close>

text \<open>A caller's operation on the orchestrator. An operation that raises leaves both files
  as they were: every raise of the operations below happens before the first write.\<close>

datatype op =
    Create string payload string
  | Claim string string
  | Heartbeat string string
  | Complete string string
  | Fail string string json
  | Recover

fun apply_op :: "config \<Rightarrow> world \<Rightarrow> op \<Rightarrow> world" where
  "apply_op cfg w (Create ttl pl creator) = snd (create_task cfg ttl pl creator w)"
| "apply_op cfg w (Claim tid a) = (case claim_task cfg tid a w of Inl e \<Rightarrow> w | Inr r \<Rightarrow> snd r)"
| "apply_op cfg w (Heartbeat tid a) = (case heartbeat cfg tid a w of Inl e \<Rightarrow> w | Inr r \<Rightarrow> snd r)"
| "apply_op cfg w (Complete tid a) = (case complete_task cfg tid a w of Inl e \<Rightarrow> w | Inr r \<Rightarrow> snd r)"
| "apply_op cfg w (Fail tid a reason) = (case fail_task cfg tid a reason w of Inl e \<Rightarrow> w | Inr r \<Rightarrow> snd r)"
| "apply_op cfg w Recover = snd (recover_stale_tasks cfg w)"

definition run_ops :: "config \<Rightarrow> world \<Rightarrow> op list \<Rightarrow> world" where
  "run_ops cfg w ops = foldl (apply_op cfg) w ops"

text \<open>The lock invariant of one task record, and of a whole store.\<close>

definition task_inv :: "task \<Rightarrow> bool" where
  "task_inv t = (((status t = ''in_progress'') = (lock_owner t \<noteq> None)) \<and>
                 ((lock_owner t = None) = (heartbeat_at t = None)))"

definition store_inv :: "(string \<times> task) list \<Rightarrow> bool" where
  "store_inv ts = list_all (\<lambda>kt. task_inv (snd kt)) ts"

text \<open>Concrete environments for the examples: a clock that advances one second per reading,
  a clock that jumps by 100 seconds after the fourth reading, and a \<^verbatim>\<open>uuid4\<close> sequence.\<close>

definition second_clock :: "nat \<Rightarrow> int" where
  "second_clock n = int n * 1000000"

definition stale_clock :: "nat \<Rightarrow> int" where
  "stale_clock n = (if n < 4 then 0 else 100000000)"

definition demo_uuids :: "nat \<Rightarrow> string" where
  "demo_uuids n = (if n = 0 then ''0123456789abcdef0123456789abcdef'' else ''fedcba9876543210fedcba9876543210'')"

definition demo_cfg :: config where
  "demo_cfg = \<lparr>stale_after_seconds = 90, event_hook = None\<rparr>"

definition empty_world :: "(nat \<Rightarrow> int) \<Rightarrow> world" where
  "empty_world clk = \<lparr>tasks_file = [], events_file = [], clock = clk, ticks = 0, uuids = demo_uuids, draws = 0\<rparr>"

definition demo_task :: task where
  "demo_task = \<lparr>task_id = ''task_0123456789ab'', title = ''x'', payload = [],
         created_at = 0, created_by = ''agent1'', status = ''in_progress'',
         lock_owner = Some ''agent1'', lock_acquired_at = Some 2000000,
         heartbeat_at = Some 2000000, completed_at = None,
         failure_reason = None\<rparr>"

definition claimed_world :: world where
  "claimed_world = run_ops demo_cfg (empty_world second_clock)
     [Create ''x'' [] ''agent1'', Claim ''task_0123456789ab'' ''agent1'']"

subsection \<open>Frame and invariant lemmas\<close>

lemma tasks_file_utc_now [simp]: "tasks_file (snd (utc_now w)) = tasks_file w"
  by (simp add: utc_now_def)

lemma tasks_file_uuid4_hex [simp]: "tasks_file (snd (uuid4_hex w)) = tasks_file w"
  by (simp add: uuid4_hex_def)

lemma tasks_file_log_event [simp]: "tasks_file (log_event cfg ty tid a md w) = tasks_file w"
  by (simp add: log_event_def utc_now_def uuid4_hex_def Let_def split: option.splits)

lemma tasks_file_save_tasks [simp]: "tasks_file (save_tasks ts w) = sort_key fst ts"
  by (simp add: save_tasks_def)

lemma recover_stale_lock_tasks_file [simp]:
  "tasks_file (snd (snd (recover_stale_lock cfg t tid w))) = tasks_file w"
  by (simp add: recover_stale_lock_def utc_now_def Let_def split: option.splits)

lemma recover_stale_lock_inv:
  "task_inv t \<Longrightarrow> task_inv (fst (snd (recover_stale_lock cfg t tid w)))"
  by (simp add: recover_stale_lock_def utc_now_def Let_def task_inv_def split: option.splits)

lemma store_inv_sort [simp]: "store_inv (sort_key fst ts) = store_inv ts"
  by (simp add: store_inv_def list_all_iff)

lemma store_inv_update: "store_inv ts \<Longrightarrow> task_inv t \<Longrightarrow> store_inv (AList.update k t ts)"
  by (induction ts) (auto simp: store_inv_def)

lemma store_inv_lookup: "store_inv ts \<Longrightarrow> map_of ts k = Some t \<Longrightarrow> task_inv t"
  by (auto simp: store_inv_def list_all_iff dest!: map_of_SomeD)

lemma recover_loop_frame:
  "tasks_file (snd (snd (recover_loop cfg ts w))) = tasks_file w"
proof (induction ts arbitrary: w)
  case Nil
  show ?case by simp
next
  case (Cons p ts)
  obtain tid t where p: "p = (tid, t)" by (cases p)
  obtain r t' w1 where r: "recover_stale_lock cfg t tid w = (r, t', w1)" by (cases "recover_stale_lock cfg t tid w")
  have "tasks_file w1 = tasks_file w" using recover_stale_lock_tasks_file [of cfg t tid w] r by simp
  then show ?case using Cons.IH [of w1] p r by (simp add: split_beta)
qed

lemma recover_loop_inv:
  "store_inv ts \<Longrightarrow> store_inv (fst (snd (recover_loop cfg ts w)))"
proof (induction ts arbitrary: w)
  case Nil
  show ?case by (simp add: store_inv_def)
next
  case (Cons p ts)
  obtain tid t where p: "p = (tid, t)" by (cases p)
  obtain r t' w1 where r: "recover_stale_lock cfg t tid w = (r, t', w1)" by (cases "recover_stale_lock cfg t tid w")
  have t: "task_inv t" and ts: "store_inv ts" using Cons.prems p by (simp_all add: store_inv_def)
  have "task_inv t'" using recover_stale_lock_inv [OF t, of cfg tid w] r by simp
  moreover have "store_inv (fst (snd (recover_loop cfg ts w1)))" using Cons.IH [OF ts] .
  ultimately show ?case using p r by (simp add: split_beta store_inv_def)
qed

lemma create_task_inv: "store_inv (tasks_file w) \<Longrightarrow> store_inv (tasks_file (snd (create_task cfg ttl pl c w)))"
  by (simp add: create_task_def load_tasks_def Let_def split_beta store_inv_update task_inv_def)

lemma claim_task_inv:
  assumes "store_inv (tasks_file w)" and "claim_task cfg tid a w = Inr (b, w')"
  shows "store_inv (tasks_file w')"
proof -
  obtain t0 where t0: "map_of (tasks_file w) tid = Some t0"
    using assms(2) by (cases "map_of (tasks_file w) tid") (simp_all add: claim_task_def load_tasks_def get_task_or_raise_def)
  obtain r t w1 where r: "recover_stale_lock cfg t0 tid w = (r, t, w1)" by (cases "recover_stale_lock cfg t0 tid w")
  have w1: "tasks_file w1 = tasks_file w" using recover_stale_lock_tasks_file [of cfg t0 tid w] r by simp
  show ?thesis using assms t0 r w1
    by (auto simp: claim_task_def load_tasks_def get_task_or_raise_def Let_def split_beta
          task_inv_def intro!: store_inv_update split: if_splits)
qed

lemma heartbeat_inv:
  assumes "store_inv (tasks_file w)" and "heartbeat cfg tid a w = Inr (b, w')"
  shows "store_inv (tasks_file w')"
proof -
  obtain t0 where t0: "map_of (tasks_file w) tid = Some t0"
    using assms(2) by (cases "map_of (tasks_file w) tid") (simp_all add: heartbeat_def load_tasks_def get_task_or_raise_def)
  obtain r t w1 where r: "recover_stale_lock cfg t0 tid w = (r, t, w1)" by (cases "recover_stale_lock cfg t0 tid w")
  have w1: "tasks_file w1 = tasks_file w" using recover_stale_lock_tasks_file [of cfg t0 tid w] r by simp
  have "task_inv t0" using store_inv_lookup [OF assms(1) t0] .
  then have t: "task_inv t" using recover_stale_lock_inv [of t0 cfg tid w] r by simp
  show ?thesis using assms t0 r w1 t
    by (auto simp: heartbeat_def load_tasks_def get_task_or_raise_def Let_def split_beta
          task_inv_def intro!: store_inv_update split: if_splits)
qed

lemma complete_task_inv:
  assumes "store_inv (tasks_file w)" and "complete_task cfg tid a w = Inr (b, w')"
  shows "store_inv (tasks_file w')"
proof -
  obtain t0 where t0: "map_of (tasks_file w) tid = Some t0"
    using assms(2) by (cases "map_of (tasks_file w) tid") (simp_all add: complete_task_def load_tasks_def get_task_or_raise_def)
  obtain r t w1 where r: "recover_stale_lock cfg t0 tid w = (r, t, w1)" by (cases "recover_stale_lock cfg t0 tid w")
  have w1: "tasks_file w1 = tasks_file w" using recover_stale_lock_tasks_file [of cfg t0 tid w] r by simp
  show ?thesis using assms t0 r w1
    by (auto simp: complete_task_def load_tasks_def get_task_or_raise_def Let_def split_beta
          task_inv_def intro!: store_inv_update split: if_splits)
qed

lemma fail_task_inv:
  assumes "store_inv (tasks_file w)" and "fail_task cfg tid a reason w = Inr (b, w')"
  shows "store_inv (tasks_file w')"
proof -
  obtain t0 where t0: "map_of (tasks_file w) tid = Some t0"
    using assms(2) by (cases "map_of (tasks_file w) tid") (simp_all add: fail_task_def load_tasks_def get_task_or_raise_def)
  obtain r t w1 where r: "recover_stale_lock cfg t0 tid w = (r, t, w1)" by (cases "recover_stale_lock cfg t0 tid w")
  have w1: "tasks_file w1 = tasks_file w" using recover_stale_lock_tasks_file [of cfg t0 tid w] r by simp
  show ?thesis using assms t0 r w1
    by (auto simp: fail_task_def load_tasks_def get_task_or_raise_def Let_def split_beta
          task_inv_def intro!: store_inv_update split: if_splits)
qed

lemma recover_stale_tasks_inv:
  "store_inv (tasks_file w) \<Longrightarrow> store_inv (tasks_file (snd (recover_stale_tasks cfg w)))"
  by (simp add: recover_stale_tasks_def load_tasks_def Let_def split_beta recover_loop_inv)

lemma apply_op_inv: "store_inv (tasks_file w) \<Longrightarrow> store_inv (tasks_file (apply_op cfg w x))"
proof (cases x)
  case (Create ttl pl c)
  assume "store_inv (tasks_file w)"
  then show ?thesis using Create by (simp add: create_task_inv)
next
  case (Claim tid a)
  assume "store_inv (tasks_file w)"
  then show ?thesis using Claim claim_task_inv [of w cfg tid a]
    by (cases "claim_task cfg tid a w") auto
next
  case (Heartbeat tid a)
  assume "store_inv (tasks_file w)"
  then show ?thesis using Heartbeat heartbeat_inv [of w cfg tid a]
    by (cases "heartbeat cfg tid a w") auto
next
  case (Complete tid a)
  assume "store_inv (tasks_file w)"
  then show ?thesis using Complete complete_task_inv [of w cfg tid a]
    by (cases "complete_task cfg tid a w") auto
next
  case (Fail tid a reason)
  assume "store_inv (tasks_file w)"
  then show ?thesis using Fail fail_task_inv [of w cfg tid a reason]
    by (cases "fail_task cfg tid a reason w") auto
next
  case Recover
  assume "store_inv (tasks_file w)"
  then show ?thesis using Recover by (simp add: recover_stale_tasks_inv)
qed

lemma run_ops_inv: "store_inv (tasks_file w) \<Longrightarrow> store_inv (tasks_file (run_ops cfg w ops))"
  unfolding run_ops_def by (induction ops arbitrary: w) (simp_all add: apply_op_inv)

lemmas orch_defs = run_ops_def create_task_def claim_task_def heartbeat_def complete_task_def
  fail_task_def recover_stale_tasks_def load_tasks_def save_tasks_def log_event_def uuid4_hex_def
  utc_now_def get_task_or_raise_def recover_stale_lock_def truthy_def stale_after_def Let_def

lemmas demo_defs = empty_world_def demo_cfg_def demo_uuids_def second_clock_def stale_clock_def
  demo_task_def

lemma demo_claimed:
  "tasks_file (run_ops demo_cfg (empty_world second_clock)
     [Create ''x'' [] ''agent1'', Claim ''task_0123456789ab'' ''agent1'']) =
   [(''task_0123456789ab'', demo_task)]"
  by (simp add: orch_defs demo_defs)

subsection \<open>The lock invariant on the persisted store\<close>

text \<open>
  Claim C1. Starting from an empty task store, after any sequence of \<open>create_task\<close>,
  \<open>claim_task\<close>, \<open>heartbeat\<close>, \<open>complete_task\<close>, \<open>fail_task\<close> and
  \<open>recover_stale_tasks\<close> calls, every task record of the persisted store has status
  \<open>in_progress\<close> if and only if its \<open>lock_owner\<close> is not null and its
  \<open>heartbeat_at\<close> is not null.
\<close>

theorem status_in_progress_iff_locked:
  assumes "tasks_file w0 = []"
    and "(tid, t) \<in> set (tasks_file (run_ops cfg w0 ops))"
  shows "(status t = ''in_progress'') = (lock_owner t \<noteq> None \<and> heartbeat_at t \<noteq> None)"
proof -
  have "store_inv (tasks_file w0)" using assms(1) by (simp add: store_inv_def)
  then have "store_inv (tasks_file (run_ops cfg w0 ops))" by (rule run_ops_inv)
  then have "task_inv t" using assms(2) by (auto simp: store_inv_def list_all_iff)
  then show ?thesis by (auto simp: task_inv_def)
qed

theorem status_in_progress_iff_locked_witness:
  "tasks_file (empty_world second_clock) = [] \<and>
   (''task_0123456789ab'', demo_task) \<in> set (tasks_file (run_ops demo_cfg (empty_world second_clock)
     [Create ''x'' [] ''agent1'', Claim ''task_0123456789ab'' ''agent1''])) \<and>
   (status demo_task = ''in_progress'') = (lock_owner demo_task \<noteq> None \<and> heartbeat_at demo_task \<noteq> None)"
proof -
  have e: "tasks_file (empty_world second_clock) = []" by (simp add: empty_world_def)
  have m: "(''task_0123456789ab'', demo_task) \<in> set (tasks_file (run_ops demo_cfg (empty_world second_clock)
     [Create ''x'' [] ''agent1'', Claim ''task_0123456789ab'' ''agent1'']))"
    by (simp add: demo_claimed)
  show ?thesis using e m status_in_progress_iff_locked [OF e m] by blast
qed

subsection \<open>Lookups in the saved store\<close>

lemma map_of_filter_key: "map_of xs k = map_of (filter (\<lambda>p. fst p = k) xs) k"
  by (induction xs) auto

lemma map_of_sort_key [simp]: "map_of (sort_key fst xs) = map_of xs"
proof
  fix k
  have "map_of (sort_key fst xs) k = map_of (filter (\<lambda>p. fst p = k) (sort_key fst xs)) k"
    by (rule map_of_filter_key)
  also have "filter (\<lambda>p. fst p = k) (sort_key fst xs) = filter (\<lambda>p. fst p = k) xs"
    by (rule sort_key_stable)
  also have "map_of (filter (\<lambda>p. fst p = k) xs) k = map_of xs k"
    by (rule map_of_filter_key [symmetric])
  finally show "map_of (sort_key fst xs) k = map_of xs k" .
qed

lemma map_of_saved_update [simp]:
  "map_of (tasks_file (save_tasks (AList.update k v ts) w)) = (map_of ts)(k \<mapsto> v)"
  by (simp add: save_tasks_def update_conv')


lemma get_task_or_raise_Some:
  "map_of ts tid = Some t \<Longrightarrow> get_task_or_raise ts tid = Inr t"
  by (simp add: get_task_or_raise_def)


subsection \<open>Contention: live locks, re-claims and stale locks\<close>

definition anon_world :: world where
  "anon_world = run_ops demo_cfg (empty_world second_clock)
     [Create ''x'' [] ''agent1'', Claim ''task_0123456789ab'' []]"

definition returned_true :: "error + (bool \<times> world) \<Rightarrow> bool" where
  "returned_true r = (\<not> isl r \<and> fst (projr r))"

definition returned_false :: "error + (bool \<times> world) \<Rightarrow> bool" where
  "returned_false r = (\<not> isl r \<and> \<not> fst (projr r))"

definition world_after :: "error + (bool \<times> world) \<Rightarrow> world" where
  "world_after r = snd (projr r)"

lemma recover_stale_lock_owner:
  "lock_owner (fst (snd (recover_stale_lock cfg t tid w))) = None \<or>
   lock_owner (fst (snd (recover_stale_lock cfg t tid w))) = lock_owner t"
  by (simp add: recover_stale_lock_def utc_now_def Let_def split: option.splits)

lemma recover_stale_lock_live:
  assumes "lock_owner t = Some owner" and "owner \<noteq> []" and "heartbeat_at t = Some hb"
    and "clock w (ticks w) - hb \<le> stale_after cfg"
  shows "recover_stale_lock cfg t tid w = (False, t, w\<lparr>ticks := Suc (ticks w)\<rparr>)"
  using assms by (simp add: recover_stale_lock_def utc_now_def)

lemma recover_stale_lock_anon:
  "lock_owner t = Some [] \<Longrightarrow> recover_stale_lock cfg t tid w = (False, t, w)"
  by (simp add: recover_stale_lock_def split: option.splits)

lemma complete_task_non_owner:
  assumes "map_of (tasks_file w) tid = Some t" and "lock_owner t \<noteq> Some agent_id"
  shows "\<exists>w'. complete_task cfg tid agent_id w = Inr (False, w') \<and> tasks_file w' = tasks_file w"
proof -
  obtain r t' w1 where r: "recover_stale_lock cfg t tid w = (r, t', w1)"
    by (cases "recover_stale_lock cfg t tid w")
  have "lock_owner t' \<noteq> Some agent_id"
    using recover_stale_lock_owner [of cfg t tid w] r assms(2) by auto
  moreover have "tasks_file w1 = tasks_file w"
    using recover_stale_lock_tasks_file [of cfg t tid w] r by simp
  ultimately show ?thesis
    using assms(1) r by (simp add: complete_task_def load_tasks_def get_task_or_raise_Some)
qed

lemma fail_task_non_owner:
  assumes "map_of (tasks_file w) tid = Some t" and "lock_owner t \<noteq> Some agent_id"
  shows "\<exists>w'. fail_task cfg tid agent_id reason w = Inr (False, w') \<and> tasks_file w' = tasks_file w"
proof -
  obtain r t' w1 where r: "recover_stale_lock cfg t tid w = (r, t', w1)"
    by (cases "recover_stale_lock cfg t tid w")
  have "lock_owner t' \<noteq> Some agent_id"
    using recover_stale_lock_owner [of cfg t tid w] r assms(2) by auto
  moreover have "tasks_file w1 = tasks_file w"
    using recover_stale_lock_tasks_file [of cfg t tid w] r by simp
  ultimately show ?thesis
    using assms(1) r by (simp add: fail_task_def load_tasks_def get_task_or_raise_Some)
qed

text \<open>
  Where the lock of a live owner holds. For a task whose lock is held by an owner with a
  non-empty id and whose heartbeat is within the stale timeout at the clock reading of the
  call, \<open>claim_task\<close> by a different agent returns \<open>False\<close> and leaves both files as
  they were (only the clock has been read once), so \<open>lock_owner\<close>,
  \<open>lock_acquired_at\<close>, \<open>heartbeat_at\<close> and \<open>status\<close> of the persisted record are
  unchanged. For every task in the store and every owner, \<open>complete_task\<close> and
  \<open>fail_task\<close> called by an agent that is not the current \<open>lock_owner\<close> return
  \<open>False\<close> and leave the task store unchanged.
\<close>

theorem live_lock_denies_other_agents:
  assumes "map_of (tasks_file w) tid = Some t"
  shows "(lock_owner t = Some owner \<and> owner \<noteq> [] \<and> heartbeat_at t = Some hb \<and>
          clock w (ticks w) - hb \<le> stale_after cfg \<and> agent_id \<noteq> owner \<longrightarrow>
            claim_task cfg tid agent_id w = Inr (False, w\<lparr>ticks := Suc (ticks w)\<rparr>)) \<and>
         (lock_owner t \<noteq> Some agent_id \<longrightarrow>
            (\<exists>w'. complete_task cfg tid agent_id w = Inr (False, w') \<and> tasks_file w' = tasks_file w) \<and>
            (\<exists>w'. fail_task cfg tid agent_id reason w = Inr (False, w') \<and> tasks_file w' = tasks_file w))"
proof (intro conjI impI)
  assume live: "lock_owner t = Some owner \<and> owner \<noteq> [] \<and> heartbeat_at t = Some hb \<and>
          clock w (ticks w) - hb \<le> stale_after cfg \<and> agent_id \<noteq> owner"
  then have r: "recover_stale_lock cfg t tid w = (False, t, w\<lparr>ticks := Suc (ticks w)\<rparr>)"
    by (simp add: recover_stale_lock_live)
  show "claim_task cfg tid agent_id w = Inr (False, w\<lparr>ticks := Suc (ticks w)\<rparr>)"
    using assms live r
    by (auto simp: claim_task_def load_tasks_def get_task_or_raise_Some truthy_def)
next
  assume "lock_owner t \<noteq> Some agent_id"
  then show "\<exists>w'. complete_task cfg tid agent_id w = Inr (False, w') \<and> tasks_file w' = tasks_file w"
    using assms by (rule_tac complete_task_non_owner)
next
  assume "lock_owner t \<noteq> Some agent_id"
  then show "\<exists>w'. fail_task cfg tid agent_id reason w = Inr (False, w') \<and> tasks_file w' = tasks_file w"
    using assms by (rule_tac fail_task_non_owner)
qed

lemma claimed_world_eq:
  "claimed_world = \<lparr>tasks_file = [(''task_0123456789ab'', demo_task)],
     events_file =
      [\<lparr>event_id = ''event_fedcba9876'', timestamp = 1000000,
          etype = ''task_created'', ev_task_id = ''task_0123456789ab'',
          actor = ''agent1'', metadata = [(''title'', JStr ''x'')]\<rparr>,
       \<lparr>event_id = ''event_fedcba9876'', timestamp = 3000000,
          etype = ''task_claimed'', ev_task_id = ''task_0123456789ab'',
          actor = ''agent1'', metadata = []\<rparr>],
     clock = second_clock, ticks = 4, uuids = demo_uuids, draws = 3\<rparr>"
  by (simp add: claimed_world_def orch_defs demo_defs)

theorem live_lock_denies_other_agents_witness:
  "map_of (tasks_file claimed_world) ''task_0123456789ab'' = Some demo_task \<and>
   lock_owner demo_task = Some ''agent1'' \<and> ''agent1'' \<noteq> [] \<and>
   heartbeat_at demo_task = Some 2000000 \<and>
   clock claimed_world (ticks claimed_world) - 2000000 \<le> stale_after demo_cfg \<and>
   ''agent2'' \<noteq> ''agent1'' \<and> lock_owner demo_task \<noteq> Some ''agent2'' \<and>
   claim_task demo_cfg ''task_0123456789ab'' ''agent2'' claimed_world =
     Inr (False, claimed_world\<lparr>ticks := Suc (ticks claimed_world)\<rparr>) \<and>
   (\<exists>w'. complete_task demo_cfg ''task_0123456789ab'' ''agent2'' claimed_world = Inr (False, w') \<and>
         tasks_file w' = tasks_file claimed_world) \<and>
   (\<exists>w'. fail_task demo_cfg ''task_0123456789ab'' ''agent2'' (JStr ''boom'') claimed_world = Inr (False, w') \<and>
         tasks_file w' = tasks_file claimed_world)"
proof -
  have m: "map_of (tasks_file claimed_world) ''task_0123456789ab'' = Some demo_task"
    by (simp add: claimed_world_eq)
  have h: "lock_owner demo_task = Some ''agent1'' \<and> ''agent1'' \<noteq> [] \<and>
     heartbeat_at demo_task = Some 2000000 \<and>
     clock claimed_world (ticks claimed_world) - 2000000 \<le> stale_after demo_cfg \<and>
     ''agent2'' \<noteq> ''agent1''"
    by (simp add: claimed_world_eq demo_defs stale_after_def)
  have n: "lock_owner demo_task \<noteq> Some ''agent2''"
    by (simp add: demo_task_def)
  show ?thesis
    using m h n
      live_lock_denies_other_agents [OF m, of "''agent1''" 2000000 demo_cfg "''agent2''" "JStr ''boom''"]
    by blast
qed

lemma anon_world_eq:
  "anon_world = \<lparr>tasks_file = [(''task_0123456789ab'', demo_task\<lparr>lock_owner := Some []\<rparr>)],
     events_file =
      [\<lparr>event_id = ''event_fedcba9876'', timestamp = 1000000,
          etype = ''task_created'', ev_task_id = ''task_0123456789ab'',
          actor = ''agent1'', metadata = [(''title'', JStr ''x'')]\<rparr>,
       \<lparr>event_id = ''event_fedcba9876'', timestamp = 3000000,
          etype = ''task_claimed'', ev_task_id = ''task_0123456789ab'',
          actor = [], metadata = []\<rparr>],
     clock = second_clock, ticks = 4, uuids = demo_uuids, draws = 3\<rparr>"
  by (simp add: anon_world_def orch_defs demo_defs)

text \<open>
  Claim C4 at a concrete run: a task claimed by a live owner is not given to a different
  agent. The owner id is \<^verbatim>\<open>""\<close>. After \<^verbatim>\<open>claim_task(t, "")\<close> the lock is live (two
  seconds old, timeout 90 seconds) and the three other operations treat \<^verbatim>\<open>""\<close> as its
  owner: \<open>heartbeat\<close>, \<open>complete_task\<close> and \<open>fail_task\<close> by agent2 return
  \<open>False\<close>, and \<open>heartbeat\<close> by \<^verbatim>\<open>""\<close> returns \<open>True\<close>. Only \<open>claim_task\<close>
  tests \<^verbatim>\<open>if owner and owner != agent_id\<close>, where the empty string is falsy:
  \<^verbatim>\<open>claim_task(t, "agent2")\<close> returns \<open>True\<close> and replaces the owner.
\<close>

theorem empty_owner_lock_taken_over:
  "map (lock_owner \<circ> snd) (tasks_file anon_world) = [Some []] \<and>
   map (status \<circ> snd) (tasks_file anon_world) = [''in_progress''] \<and>
   map (heartbeat_at \<circ> snd) (tasks_file anon_world) = [Some 2000000] \<and>
   clock anon_world (ticks anon_world) - 2000000 \<le> stale_after demo_cfg \<and>
   ''agent2'' \<noteq> [] \<and>
   returned_false (heartbeat demo_cfg ''task_0123456789ab'' ''agent2'' anon_world) \<and>
   returned_false (complete_task demo_cfg ''task_0123456789ab'' ''agent2'' anon_world) \<and>
   returned_false (fail_task demo_cfg ''task_0123456789ab'' ''agent2'' (JStr ''boom'') anon_world) \<and>
   returned_true (heartbeat demo_cfg ''task_0123456789ab'' [] anon_world) \<and>
   returned_true (claim_task demo_cfg ''task_0123456789ab'' ''agent2'' anon_world) \<and>
   map (lock_owner \<circ> snd)
     (tasks_file (world_after (claim_task demo_cfg ''task_0123456789ab'' ''agent2'' anon_world))) =
     [Some ''agent2'']"
  by (simp add: anon_world_eq returned_true_def returned_false_def world_after_def orch_defs
      demo_defs)

lemma claim_task_by_owner:
  assumes "map_of (tasks_file w) tid = Some t" and "status t = ''in_progress''"
    and "recover_stale_lock cfg t tid w = (False, t, w1)" and "lock_owner t = Some agent_id"
  shows "\<exists>w'. claim_task cfg tid agent_id w = Inr (True, w') \<and>
     map_of (tasks_file w') tid =
       Some (t\<lparr>lock_acquired_at := Some (clock w1 (ticks w1)),
               heartbeat_at := Some (clock w1 (ticks w1))\<rparr>)"
proof -
  have "t\<lparr>status := ''in_progress'', lock_owner := Some agent_id,
          lock_acquired_at := Some (clock w1 (ticks w1)),
          heartbeat_at := Some (clock w1 (ticks w1))\<rparr> =
        t\<lparr>lock_acquired_at := Some (clock w1 (ticks w1)),
          heartbeat_at := Some (clock w1 (ticks w1))\<rparr>"
    using assms(2,4) by simp
  then show ?thesis
    using assms
    by (simp add: claim_task_def load_tasks_def get_task_or_raise_Some truthy_def utc_now_def update_conv')
qed

text \<open>
  Claim C5, as amended. For a task in progress whose lock is held by a live owner, a
  second \<open>claim_task\<close> by that owner returns \<open>True\<close> and the persisted record differs
  from the previous one exactly in \<open>lock_acquired_at\<close> and \<open>heartbeat_at\<close>, which are
  both set to the clock reading taken by the re-claim (the second reading of the call, or
  the first when the owner id is empty and the stale check reads no clock). Status, owner
  and every other field are unchanged.
\<close>

theorem reclaim_by_owner_resets_timestamps:
  assumes "map_of (tasks_file w) tid = Some t"
    and "status t = ''in_progress''"
    and "lock_owner t = Some agent_id"
    and "heartbeat_at t = Some hb"
    and "clock w (ticks w) - hb \<le> stale_after cfg"
  shows "\<exists>w'. claim_task cfg tid agent_id w = Inr (True, w') \<and>
     map_of (tasks_file w') tid =
       Some (t\<lparr>lock_acquired_at := Some (clock w (if agent_id = [] then ticks w else Suc (ticks w))),
               heartbeat_at := Some (clock w (if agent_id = [] then ticks w else Suc (ticks w)))\<rparr>)"
proof (cases "agent_id = []")
  case True
  then have "recover_stale_lock cfg t tid w = (False, t, w)"
    using assms(3) by (simp add: recover_stale_lock_anon)
  then show ?thesis
    using claim_task_by_owner [OF assms(1,2) _ assms(3), of cfg w] True by simp
next
  case False
  then have "recover_stale_lock cfg t tid w = (False, t, w\<lparr>ticks := Suc (ticks w)\<rparr>)"
    using assms(3,4,5) by (simp add: recover_stale_lock_live)
  then show ?thesis
    using claim_task_by_owner [OF assms(1,2) _ assms(3), of cfg "w\<lparr>ticks := Suc (ticks w)\<rparr>"] False
    by simp
qed

theorem reclaim_by_owner_resets_timestamps_witness:
  "map_of (tasks_file claimed_world) ''task_0123456789ab'' = Some demo_task \<and>
   status demo_task = ''in_progress'' \<and>
   lock_owner demo_task = Some ''agent1'' \<and>
   heartbeat_at demo_task = Some 2000000 \<and>
   clock claimed_world (ticks claimed_world) - 2000000 \<le> stale_after demo_cfg \<and>
   (\<exists>w'. claim_task demo_cfg ''task_0123456789ab'' ''agent1'' claimed_world = Inr (True, w') \<and>
     map_of (tasks_file w') ''task_0123456789ab'' =
       Some (demo_task\<lparr>lock_acquired_at := Some 5000000, heartbeat_at := Some 5000000\<rparr>))"
proof -
  have m: "map_of (tasks_file claimed_world) ''task_0123456789ab'' = Some demo_task"
    by (simp add: claimed_world_eq)
  have s: "status demo_task = ''in_progress''" by (simp add: demo_task_def)
  have l: "lock_owner demo_task = Some ''agent1''" by (simp add: demo_task_def)
  have h: "heartbeat_at demo_task = Some 2000000" by (simp add: demo_task_def)
  have c: "clock claimed_world (ticks claimed_world) - 2000000 \<le> stale_after demo_cfg"
    by (simp add: claimed_world_eq demo_defs stale_after_def)
  have t: "clock claimed_world (Suc (ticks claimed_world)) = 5000000"
    by (simp add: claimed_world_eq demo_defs)
  show ?thesis
    using m s l h c t reclaim_by_owner_resets_timestamps [OF m s l h c]
    by simp
qed

text \<open>
  Claim C5 as stated (no field changes) fails: agent1 claims at second 2 and re-claims
  three seconds later; the persisted \<open>lock_acquired_at\<close> and \<open>heartbeat_at\<close> move from
  2000000 to 5000000.
\<close>

theorem reclaim_changes_timestamps_counterexample:
  "map (lock_owner \<circ> snd) (tasks_file claimed_world) = [Some ''agent1''] \<and>
   map (status \<circ> snd) (tasks_file claimed_world) = [''in_progress''] \<and>
   map (lock_acquired_at \<circ> snd) (tasks_file claimed_world) = [Some 2000000] \<and>
   map (heartbeat_at \<circ> snd) (tasks_file claimed_world) = [Some 2000000] \<and>
   clock claimed_world (ticks claimed_world) - 2000000 \<le> stale_after demo_cfg \<and>
   returned_true (claim_task demo_cfg ''task_0123456789ab'' ''agent1'' claimed_world) \<and>
   map (lock_acquired_at \<circ> snd)
     (tasks_file (world_after (claim_task demo_cfg ''task_0123456789ab'' ''agent1'' claimed_world))) =
     [Some 5000000] \<and>
   map (heartbeat_at \<circ> snd)
     (tasks_file (world_after (claim_task demo_cfg ''task_0123456789ab'' ''agent1'' claimed_world))) =
     [Some 5000000]"
  by (simp add: claimed_world_eq returned_true_def world_after_def orch_defs demo_defs)

definition lock_recovered_events :: "world \<Rightarrow> event list" where
  "lock_recovered_events w = filter (\<lambda>e. etype e = ''lock_recovered'') (events_file w)"

definition stale_world :: world where
  "stale_world = run_ops demo_cfg (empty_world stale_clock)
     [Create ''x'' [] ''agent1'', Claim ''task_0123456789ab'' ''agent1'']"

definition after_stale_heartbeat :: world where
  "after_stale_heartbeat = world_after (heartbeat demo_cfg ''task_0123456789ab'' ''agent1'' stale_world)"

definition after_reclaim :: world where
  "after_reclaim = world_after (claim_task demo_cfg ''task_0123456789ab'' ''agent2'' after_stale_heartbeat)"

lemma claim_task_reclaims_stale:
  assumes "map_of (tasks_file w) tid = Some t" and "lock_owner t = Some owner" and "owner \<noteq> []"
    and "heartbeat_at t = Some hb" and "stale_after cfg < clock w (ticks w) - hb"
  shows "\<exists>w'. claim_task cfg tid agent_id w = Inr (True, w')"
  using assms
  by (simp add: claim_task_def load_tasks_def get_task_or_raise_Some recover_stale_lock_def
      utc_now_def truthy_def Let_def split_beta)

lemma stale_world_eq:
  "stale_world = \<lparr>tasks_file = [(''task_0123456789ab'',
       demo_task\<lparr>lock_acquired_at := Some 0, heartbeat_at := Some 0\<rparr>)],
     events_file =
      [\<lparr>event_id = ''event_fedcba9876'', timestamp = 0,
          etype = ''task_created'', ev_task_id = ''task_0123456789ab'',
          actor = ''agent1'', metadata = [(''title'', JStr ''x'')]\<rparr>,
       \<lparr>event_id = ''event_fedcba9876'', timestamp = 0,
          etype = ''task_claimed'', ev_task_id = ''task_0123456789ab'',
          actor = ''agent1'', metadata = []\<rparr>],
     clock = stale_clock, ticks = 4, uuids = demo_uuids, draws = 3\<rparr>"
  by (simp add: stale_world_def orch_defs demo_defs)

lemma after_stale_heartbeat_eq:
  "heartbeat demo_cfg ''task_0123456789ab'' ''agent1'' stale_world =
     Inr (False, stale_world\<lparr>events_file := events_file stale_world @
       [\<lparr>event_id = ''event_fedcba9876'', timestamp = 100000000,
          etype = ''lock_recovered'', ev_task_id = ''task_0123456789ab'',
          actor = ''orchestrator'', metadata = [(''previous_owner'', JStr ''agent1'')]\<rparr>],
       ticks := 6, draws := 4\<rparr>)"
  by (simp add: stale_world_eq orch_defs demo_defs)

text \<open>
  Claim C2 at a concrete run. agent1 claims the task at second 0 and lets it go stale
  (timeout 90 seconds). At second 100 agent1 calls \<open>heartbeat\<close>: the stale check resets
  the in-memory record and appends \<open>lock_recovered\<close>, then \<open>heartbeat\<close> returns
  \<open>False\<close> before \<^verbatim>\<open>_save_tasks\<close>, so the persisted record still has the stale
  lock. The next \<open>claim_task\<close> (by agent2) returns \<open>True\<close>, as the claim says, but its
  stale check appends a second \<open>lock_recovered\<close> event with the same previous owner: two
  events for one stale transition.
\<close>

theorem stale_heartbeat_logs_recovery_twice:
  "map (lock_owner \<circ> snd) (tasks_file stale_world) = [Some ''agent1''] \<and>
   map (heartbeat_at \<circ> snd) (tasks_file stale_world) = [Some 0] \<and>
   stale_after demo_cfg < clock stale_world (ticks stale_world) - 0 \<and>
   returned_false (heartbeat demo_cfg ''task_0123456789ab'' ''agent1'' stale_world) \<and>
   tasks_file after_stale_heartbeat = tasks_file stale_world \<and>
   map etype (events_file after_stale_heartbeat) =
     [''task_created'', ''task_claimed'', ''lock_recovered''] \<and>
   returned_true (claim_task demo_cfg ''task_0123456789ab'' ''agent2'' after_stale_heartbeat) \<and>
   map etype (events_file after_reclaim) =
     [''task_created'', ''task_claimed'', ''lock_recovered'', ''lock_recovered'', ''task_claimed''] \<and>
   map metadata (lock_recovered_events after_reclaim) =
     [[(''previous_owner'', JStr ''agent1'')], [(''previous_owner'', JStr ''agent1'')]]"
  by (simp add: after_reclaim_def after_stale_heartbeat_def after_stale_heartbeat_eq
      lock_recovered_events_def returned_true_def returned_false_def world_after_def
      stale_world_eq orch_defs demo_defs)

subsection \<open>Unknown task ids raise, denials are results\<close>














text \<open>A string between single quotes, as Python's messages quote names.\<close>

definition quoted :: "string \<Rightarrow> string" where
  "quoted s = [CHR 0x27] @ s @ [CHR 0x27]"

section \<open>Message bus\<close>

text \<open>
  The model follows \<^verbatim>\<open>infrastructure/message_bus.py\<close>. A handler is a value of a type
  \<open>'h\<close> compared by equality (Python compares the callables of two \<^verbatim>\<open>Subscription\<close>
  dataclass instances with \<^verbatim>\<open>==\<close>). What a handler does is outside the bus, except
  whether it returns: \<open>behaviour h m\<close> is \<open>None\<close> when the handler \<open>h\<close> returns from the
  call with the message \<open>m\<close> and \<open>Some msg\<close> when it raises an exception whose
  \<^verbatim>\<open>str\<close> is \<open>msg\<close>. \<open>publish\<close> returns the calls it makes, in order (the handler
  called and the message it is given), and the exception that leaves it, if any. The
  closure returned by \<open>subscribe\<close> is the function \<open>unsubscribe sub\<close>.
\<close>

record 'h subscription =
  pattern :: string
  handler :: 'h

record 'p message =
  route :: string
  msg_payload :: 'p

record 'h message_bus =
  port :: int
  subscriptions :: "'h subscription list"
  running :: bool

definition new_bus :: "int \<Rightarrow> 'h message_bus" where
  "new_bus p = \<lparr>port = p, subscriptions = [], running = False\<rparr>"

definition matches :: "string \<Rightarrow> string \<Rightarrow> bool" where
  "matches pat r =
     (if pat \<noteq> [] \<and> last pat = CHR ''*'' then prefix (butlast pat) r else pat = r)"

definition unsubscribe :: "'h subscription \<Rightarrow> 'h message_bus \<Rightarrow> 'h message_bus" where
  "unsubscribe sub bus =
     (if sub \<in> set (subscriptions bus)
      then bus\<lparr>subscriptions := remove1 sub (subscriptions bus)\<rparr>
      else bus)"

definition subscribe :: "string \<Rightarrow> 'h \<Rightarrow> 'h message_bus \<Rightarrow> 'h message_bus \<times> ('h message_bus \<Rightarrow> 'h message_bus)" where
  "subscribe pat h bus =
     (let sub = \<lparr>pattern = pat, handler = h\<rparr>
      in (bus\<lparr>subscriptions := subscriptions bus @ [sub]\<rparr>, unsubscribe sub))"

text \<open>The loop \<^verbatim>\<open>for _pattern, handler in handlers: handler(message)\<close>: it has no
  \<^verbatim>\<open>try\<close>, so the first handler that raises ends it.\<close>

fun call_handlers :: "('h \<Rightarrow> 'p message \<Rightarrow> string option) \<Rightarrow> 'p message \<Rightarrow> (string \<times> 'h) list \<Rightarrow>
    ('h \<times> 'p message) list \<times> string option" where
  "call_handlers behaviour m [] = ([], None)"
| "call_handlers behaviour m (ph # handlers) =
     (case behaviour (snd ph) m of
        Some exc \<Rightarrow> ([(snd ph, m)], Some exc)
      | None \<Rightarrow>
          (let (calls, raised) = call_handlers behaviour m handlers
           in ((snd ph, m) # calls, raised)))"

definition publish :: "('h \<Rightarrow> 'p message \<Rightarrow> string option) \<Rightarrow> string \<Rightarrow> 'p \<Rightarrow> 'h message_bus \<Rightarrow>
    ('h \<times> 'p message) list \<times> string option" where
  "publish behaviour r pl bus =
     (let message = \<lparr>route = r, msg_payload = pl\<rparr>;
          handlers = map (\<lambda>sub. (pattern sub, handler sub))
                       (filter (\<lambda>sub. matches (pattern sub) r) (subscriptions bus))
      in call_handlers behaviour message handlers)"

text \<open>The handlers of the subscriptions that match a route, in subscription order, and the
  ones among them that \<open>publish\<close> reaches: those before the first that raises, and it.\<close>

definition matching_handlers :: "string \<Rightarrow> 'h message_bus \<Rightarrow> 'h list" where
  "matching_handlers r bus =
     map handler (filter (\<lambda>sub. matches (pattern sub) r) (subscriptions bus))"

definition returns :: "('h \<Rightarrow> 'p message \<Rightarrow> string option) \<Rightarrow> 'p message \<Rightarrow> 'h \<Rightarrow> bool" where
  "returns behaviour m h = (behaviour h m = None)"

definition reached :: "('h \<Rightarrow> 'p message \<Rightarrow> string option) \<Rightarrow> 'p message \<Rightarrow> 'h list \<Rightarrow> 'h list" where
  "reached behaviour m hs =
     takeWhile (returns behaviour m) hs @ take 1 (dropWhile (returns behaviour m) hs)"

definition demo_bus :: "nat message_bus" where
  "demo_bus = fst (subscribe ''orchestrator.task_claimed'' 2
                (fst (subscribe ''registry.*'' 3
                  (fst (subscribe ''orchestrator.*'' 1 (new_bus 8765))))))"

definition quiet :: "nat \<Rightarrow> string message \<Rightarrow> string option" where
  "quiet h m = None"

definition first_raises :: "nat \<Rightarrow> string message \<Rightarrow> string option" where
  "first_raises h m = (if h = 1 then Some ''boom'' else None)"

lemma matches_wildcard: "matches (p @ ''*'') r = prefix p r"
  by (simp add: matches_def)

lemma matches_exact: "pat = [] \<or> last pat \<noteq> CHR ''*'' \<Longrightarrow> matches pat r = (pat = r)"
  by (auto simp: matches_def)

lemma call_handlers_calls:
  "fst (call_handlers behaviour m phs) =
     map (\<lambda>h. (h, m)) (reached behaviour m (map snd phs))"
  by (induction phs) (auto simp: reached_def returns_def split_beta split: option.splits)

lemma call_handlers_raised:
  "snd (call_handlers behaviour m phs) =
     (case dropWhile (returns behaviour m) (map snd phs) of [] \<Rightarrow> None | h # hs \<Rightarrow> behaviour h m)"
  by (induction phs) (auto simp: returns_def split_beta split: option.splits)

lemma all_return:
  assumes "\<forall>h \<in> set hs. behaviour h m = None"
  shows "takeWhile (returns behaviour m) hs = hs" and "dropWhile (returns behaviour m) hs = []"
  using assms by (simp_all add: returns_def takeWhile_eq_all_conv dropWhile_eq_Nil_conv)

lemma reached_all: "\<forall>h \<in> set hs. behaviour h m = None \<Longrightarrow> reached behaviour m hs = hs"
  by (simp add: reached_def all_return)

lemma publish_calls:
  "fst (publish behaviour r pl bus) =
     map (\<lambda>h. (h, \<lparr>route = r, msg_payload = pl\<rparr>))
       (reached behaviour \<lparr>route = r, msg_payload = pl\<rparr> (matching_handlers r bus))"
  by (simp add: publish_def Let_def call_handlers_calls matching_handlers_def comp_def)

lemma publish_raised:
  "snd (publish behaviour r pl bus) =
     (case dropWhile (returns behaviour \<lparr>route = r, msg_payload = pl\<rparr>) (matching_handlers r bus) of
        [] \<Rightarrow> None
      | h # hs \<Rightarrow> behaviour h \<lparr>route = r, msg_payload = pl\<rparr>)"
  by (simp add: publish_def Let_def call_handlers_raised matching_handlers_def comp_def)

lemma publish_all_return:
  assumes "\<forall>h \<in> set (matching_handlers r bus). behaviour h \<lparr>route = r, msg_payload = pl\<rparr> = None"
  shows "publish behaviour r pl bus =
           (map (\<lambda>h. (h, \<lparr>route = r, msg_payload = pl\<rparr>)) (matching_handlers r bus), None)"
proof -
  have "dropWhile (returns behaviour \<lparr>route = r, msg_payload = pl\<rparr>) (matching_handlers r bus) = []"
    using assms by (rule all_return)
  then have "snd (publish behaviour r pl bus) = None" by (simp only: publish_raised list.case)
  moreover have "fst (publish behaviour r pl bus) =
      map (\<lambda>h. (h, \<lparr>route = r, msg_payload = pl\<rparr>)) (matching_handlers r bus)"
    using assms by (simp add: publish_calls reached_all)
  ultimately show ?thesis by (simp add: prod_eq_iff)
qed

lemma unsubscribe_present:
  assumes "sub \<in> set (subscriptions bus)"
  shows "\<exists>xs ys. subscriptions bus = xs @ sub # ys \<and> sub \<notin> set xs \<and>
                 subscriptions (unsubscribe sub bus) = xs @ ys"
proof -
  from assms obtain xs ys where d: "subscriptions bus = xs @ sub # ys" and n: "sub \<notin> set xs"
    by (meson split_list_first)
  then have "remove1 sub (subscriptions bus) = xs @ ys" by (simp add: remove1_append)
  then show ?thesis using assms d n by (auto simp: unsubscribe_def)
qed

lemma unsubscribe_absent:
  "sub \<notin> set (subscriptions bus) \<Longrightarrow> unsubscribe sub bus = bus"
  by (simp add: unsubscribe_def)

lemma subscribe_appends:
  "subscriptions (fst (subscribe pat h bus)) =
     subscriptions bus @ [\<lparr>pattern = pat, handler = h\<rparr>]"
  by (simp add: subscribe_def Let_def)

lemma subscribe_closure: "snd (subscribe pat h bus) = unsubscribe \<lparr>pattern = pat, handler = h\<rparr>"
  by (simp add: subscribe_def Let_def)

lemma subscribe_then_unsubscribe:
  "\<lparr>pattern = pat, handler = h\<rparr> \<notin> set (subscriptions bus) \<Longrightarrow>
   subscriptions (snd (subscribe pat h bus) (fst (subscribe pat h bus))) = subscriptions bus"
  by (simp add: subscribe_def unsubscribe_def Let_def remove1_append)

lemma subscribe_then_unsubscribe_mset:
  "mset (subscriptions (snd (subscribe pat h bus) (fst (subscribe pat h bus)))) =
   mset (subscriptions bus)"
  by (simp add: subscribe_def unsubscribe_def Let_def)

text \<open>
  Claim C8, as amended. A pattern ending in the wildcard \<^verbatim>\<open>*\<close> matches exactly the routes
  that start with the pattern without its last character. Publishing a route calls the
  handlers of the matching subscriptions once each, in subscription order, each with the
  message \<^verbatim>\<open>{route, payload}\<close>, up to and including the first handler that raises: its
  exception leaves \<open>publish\<close> and the later matching handlers are not called; when no
  matching handler raises, every matching handler is called once. \<open>subscribe\<close> appends
  one subscription and returns the function that unsubscribes it; that function removes
  exactly one subscription, the first one equal to it, and keeps the order of the others;
  it changes nothing when no equal subscription is left. Scenario D: on a new bus, after
  subscribing to \<^verbatim>\<open>orchestrator.*\<close>, publishing \<^verbatim>\<open>orchestrator.task_claimed\<close> calls the
  handler once; after unsubscribing, publishing again calls nothing.
\<close>

theorem bus_wildcard_delivery_unsubscribe:
  "matches (p @ ''*'') r = prefix p r \<and>
   fst (publish behaviour r pl bus) =
     map (\<lambda>h. (h, \<lparr>route = r, msg_payload = pl\<rparr>))
       (reached behaviour \<lparr>route = r, msg_payload = pl\<rparr> (matching_handlers r bus)) \<and>
   ((\<forall>h \<in> set (matching_handlers r bus). behaviour h \<lparr>route = r, msg_payload = pl\<rparr> = None) \<longrightarrow>
      publish behaviour r pl bus =
        (map (\<lambda>h. (h, \<lparr>route = r, msg_payload = pl\<rparr>))
           (map handler (filter (\<lambda>sub. matches (pattern sub) r) (subscriptions bus))), None)) \<and>
   subscriptions (fst (subscribe pat h bus)) =
     subscriptions bus @ [\<lparr>pattern = pat, handler = h\<rparr>] \<and>
   snd (subscribe pat h bus) = unsubscribe \<lparr>pattern = pat, handler = h\<rparr> \<and>
   (sub \<in> set (subscriptions bus) \<longrightarrow>
      (\<exists>xs ys. subscriptions bus = xs @ sub # ys \<and> sub \<notin> set xs \<and>
               subscriptions (unsubscribe sub bus) = xs @ ys)) \<and>
   (sub \<notin> set (subscriptions bus) \<longrightarrow> unsubscribe sub bus = bus) \<and>
   mset (subscriptions (snd (subscribe pat h bus) (fst (subscribe pat h bus)))) =
     mset (subscriptions bus) \<and>
   publish behaviour ''orchestrator.task_claimed'' pl
       (fst (subscribe ''orchestrator.*'' h (new_bus n))) =
     ([(h, \<lparr>route = ''orchestrator.task_claimed'', msg_payload = pl\<rparr>)],
      behaviour h \<lparr>route = ''orchestrator.task_claimed'', msg_payload = pl\<rparr>) \<and>
   publish behaviour ''orchestrator.task_claimed'' pl
     (snd (subscribe ''orchestrator.*'' h (new_bus n))
        (fst (subscribe ''orchestrator.*'' h (new_bus n)))) = ([], None)"
proof (intro conjI impI)
  show "matches (p @ ''*'') r = prefix p r" by (rule matches_wildcard)
  show "fst (publish behaviour r pl bus) =
     map (\<lambda>h. (h, \<lparr>route = r, msg_payload = pl\<rparr>))
       (reached behaviour \<lparr>route = r, msg_payload = pl\<rparr> (matching_handlers r bus))"
    by (rule publish_calls)
  show "publish behaviour r pl bus =
        (map (\<lambda>h. (h, \<lparr>route = r, msg_payload = pl\<rparr>))
           (map handler (filter (\<lambda>sub. matches (pattern sub) r) (subscriptions bus))), None)"
    if "\<forall>h \<in> set (matching_handlers r bus). behaviour h \<lparr>route = r, msg_payload = pl\<rparr> = None"
    using that publish_all_return [of r bus behaviour pl] by (simp add: matching_handlers_def)
  show "subscriptions (fst (subscribe pat h bus)) =
     subscriptions bus @ [\<lparr>pattern = pat, handler = h\<rparr>]"
    by (rule subscribe_appends)
  show "snd (subscribe pat h bus) = unsubscribe \<lparr>pattern = pat, handler = h\<rparr>"
    by (rule subscribe_closure)
  show "\<exists>xs ys. subscriptions bus = xs @ sub # ys \<and> sub \<notin> set xs \<and>
               subscriptions (unsubscribe sub bus) = xs @ ys"
    if "sub \<in> set (subscriptions bus)"
    using that by (rule unsubscribe_present)
  show "unsubscribe sub bus = bus" if "sub \<notin> set (subscriptions bus)"
    using that by (rule unsubscribe_absent)
  show "mset (subscriptions (snd (subscribe pat h bus) (fst (subscribe pat h bus)))) =
     mset (subscriptions bus)"
    by (rule subscribe_then_unsubscribe_mset)
  show "publish behaviour ''orchestrator.task_claimed'' pl
       (fst (subscribe ''orchestrator.*'' h (new_bus n))) =
     ([(h, \<lparr>route = ''orchestrator.task_claimed'', msg_payload = pl\<rparr>)],
      behaviour h \<lparr>route = ''orchestrator.task_claimed'', msg_payload = pl\<rparr>)"
    by (simp add: publish_def subscribe_def new_bus_def matches_def Let_def split: option.splits)
  show "publish behaviour ''orchestrator.task_claimed'' pl
     (snd (subscribe ''orchestrator.*'' h (new_bus n))
        (fst (subscribe ''orchestrator.*'' h (new_bus n)))) = ([], None)"
    by (simp add: publish_def subscribe_def unsubscribe_def new_bus_def Let_def)
qed

lemma demo_bus_subscriptions:
  "subscriptions demo_bus =
     [\<lparr>pattern = ''orchestrator.*'', handler = 1\<rparr>,
      \<lparr>pattern = ''registry.*'', handler = 3\<rparr>,
      \<lparr>pattern = ''orchestrator.task_claimed'', handler = 2\<rparr>]"
  by (simp add: demo_bus_def subscribe_def new_bus_def Let_def)

lemma demo_bus_matching:
  "matching_handlers ''orchestrator.task_claimed'' demo_bus = [1, 2]"
  by (simp add: matching_handlers_def demo_bus_subscriptions matches_def)

theorem bus_wildcard_delivery_unsubscribe_witness:
  "map (\<lambda>h. quiet h \<lparr>route = ''orchestrator.task_claimed'', msg_payload = ''claimed''\<rparr>)
     (matching_handlers ''orchestrator.task_claimed'' demo_bus) = [None, None] \<and>
   \<lparr>pattern = ''registry.*'', handler = 3\<rparr> \<in> set (subscriptions demo_bus) \<and>
   \<lparr>pattern = ''registry.*'', handler = 4\<rparr> \<notin> set (subscriptions demo_bus) \<and>
   matches ''orchestrator.*'' ''orchestrator.task_claimed'' \<and>
   publish quiet ''orchestrator.task_claimed'' ''claimed'' demo_bus =
     ([(1, \<lparr>route = ''orchestrator.task_claimed'', msg_payload = ''claimed''\<rparr>),
       (2, \<lparr>route = ''orchestrator.task_claimed'', msg_payload = ''claimed''\<rparr>)], None) \<and>
   subscriptions (unsubscribe \<lparr>pattern = ''registry.*'', handler = 3\<rparr> demo_bus) =
     [\<lparr>pattern = ''orchestrator.*'', handler = 1\<rparr>,
      \<lparr>pattern = ''orchestrator.task_claimed'', handler = 2\<rparr>] \<and>
   unsubscribe \<lparr>pattern = ''registry.*'', handler = 4\<rparr> demo_bus = demo_bus"
proof -
  have q: "\<forall>h \<in> set (matching_handlers ''orchestrator.task_claimed'' demo_bus).
      quiet h \<lparr>route = ''orchestrator.task_claimed'', msg_payload = ''claimed''\<rparr> = None"
    by (simp add: quiet_def)
  have m: "\<lparr>pattern = ''registry.*'', handler = 3\<rparr> \<in> set (subscriptions demo_bus)"
    by (simp add: demo_bus_subscriptions)
  have n: "\<lparr>pattern = ''registry.*'', handler = 4\<rparr> \<notin> set (subscriptions demo_bus)"
    by (simp add: demo_bus_subscriptions)
  have x: "matches ''orchestrator.*'' ''orchestrator.task_claimed''"
    by (simp add: matches_def)
  have u: "subscriptions (unsubscribe \<lparr>pattern = ''registry.*'', handler = 3\<rparr> demo_bus) =
     [\<lparr>pattern = ''orchestrator.*'', handler = 1\<rparr>,
      \<lparr>pattern = ''orchestrator.task_claimed'', handler = 2\<rparr>]"
    by (simp add: unsubscribe_def demo_bus_subscriptions)
  have f: "map handler (filter (\<lambda>sub. matches (pattern sub) ''orchestrator.task_claimed'')
             (subscriptions demo_bus)) = [1, 2]"
    using demo_bus_matching by (simp only: matching_handlers_def)
  have q': "map (\<lambda>h. quiet h \<lparr>route = ''orchestrator.task_claimed'', msg_payload = ''claimed''\<rparr>)
     (matching_handlers ''orchestrator.task_claimed'' demo_bus) = [None, None]"
    by (simp add: demo_bus_matching quiet_def)
  show ?thesis
    using q q' m n x u f
      bus_wildcard_delivery_unsubscribe [where r = "''orchestrator.task_claimed''"
        and pl = "''claimed''" and bus = demo_bus and behaviour = quiet
        and sub = "\<lparr>pattern = ''registry.*'', handler = 3\<rparr>"]
      bus_wildcard_delivery_unsubscribe [where r = "''orchestrator.task_claimed''"
        and pl = "''claimed''" and bus = demo_bus and behaviour = quiet
        and sub = "\<lparr>pattern = ''registry.*'', handler = 4\<rparr>"]
    by simp
qed

text \<open>
  Claim C8 as stated (every matching handler is invoked) fails when a handler raises: of
  the two handlers that match \<^verbatim>\<open>orchestrator.task_claimed\<close>, the first raises and the
  second is not called.
\<close>

theorem raising_handler_counterexample:
  "matching_handlers ''orchestrator.task_claimed'' demo_bus = [1, 2] \<and>
   first_raises 1 \<lparr>route = ''orchestrator.task_claimed'', msg_payload = ''claimed''\<rparr> = Some ''boom'' \<and>
   publish first_raises ''orchestrator.task_claimed'' ''claimed'' demo_bus =
     ([(1, \<lparr>route = ''orchestrator.task_claimed'', msg_payload = ''claimed''\<rparr>)], Some ''boom'')"
  by (simp add: demo_bus_matching publish_def demo_bus_subscriptions matches_def first_raises_def
      Let_def)

section \<open>Orchestrator adapter: sessions over the message bus\<close>

text \<open>
  The model follows \<^verbatim>\<open>infrastructure/orchestrator_adapter.py\<close>. The payload of a request
  is a record of its optional keys (\<open>None\<close> for a missing key). The keys the adapter
  itself inspects (\<^verbatim>\<open>session_id\<close>, \<^verbatim>\<open>lock_token\<close>, \<^verbatim>\<open>outcome\<close>,
  \<^verbatim>\<open>result_payload\<close>) hold any JSON value; the keys of a claim request are the arguments
  of the orchestrator calls and have the types of the orchestrator's parameters. The adapter
  state holds the orchestrator's world, the session dictionary and the messages published
  through the router, in order; what the subscribers of those routes do is outside the
  adapter. A handler returns \<open>Inl\<close> when it raises; every raise of the heartbeat and
  release handlers happens before the first change of the state. The \<^verbatim>\<open>ttl_ms\<close> of a
  claim is \<^verbatim>\<open>int(stale_after.total_seconds() * 1000)\<close>.
\<close>

record claim_request =
  cr_task_id :: "string option"
  cr_agent_id :: "string option"
  cr_task_type :: "string option"
  cr_payload :: "payload option"

record heartbeat_request =
  hr_session_id :: "json option"
  hr_lock_token :: "json option"

record release_request =
  rr_session_id :: "json option"
  rr_lock_token :: "json option"
  rr_outcome :: "json option"
  rr_result_payload :: "json option"

record session =
  sess_task_id :: string
  sess_agent_id :: string
  sess_lock_token :: string

record adapter =
  orchestrator :: world
  sessions :: "(string \<times> session) list"
  emitted :: "(string \<times> json) list"

text \<open>\<^verbatim>\<open>payload.get(key)\<close>: the value, or \<^verbatim>\<open>None\<close> for a missing key.\<close>

definition json_opt :: "json option \<Rightarrow> json" where
  "json_opt x = (case x of None \<Rightarrow> JNull | Some j \<Rightarrow> j)"

definition opt_field :: "string \<Rightarrow> json option \<Rightarrow> (string \<times> json) list" where
  "opt_field k v = (case v of None \<Rightarrow> [] | Some j \<Rightarrow> [(k, j)])"

definition claim_request_json :: "claim_request \<Rightarrow> json" where
  "claim_request_json req =
     JObj (opt_field ''task_id'' (map_option JStr (cr_task_id req)) @
           opt_field ''agent_id'' (map_option JStr (cr_agent_id req)) @
           opt_field ''task_type'' (map_option JStr (cr_task_type req)) @
           opt_field ''payload'' (map_option JObj (cr_payload req)))"

text \<open>Python's name for the type of a JSON value, as it appears in error messages.\<close>

definition type_name :: "json \<Rightarrow> string" where
  "type_name v = (case v of
       JNull \<Rightarrow> ''NoneType''
     | JBool b \<Rightarrow> ''bool''
     | JInt i \<Rightarrow> ''int''
     | JFloat x \<Rightarrow> ''float''
     | JStr s \<Rightarrow> ''str''
     | JArr xs \<Rightarrow> ''list''
     | JObj kvs \<Rightarrow> ''dict'')"

text \<open>\<^verbatim>\<open>value.get(key, default)\<close>: only a dictionary has the method; on any other value
  the attribute lookup raises \<^verbatim>\<open>AttributeError\<close>.\<close>

definition dict_get :: "json \<Rightarrow> string \<Rightarrow> json \<Rightarrow> error + json" where
  "dict_get v k dflt =
     (case v of
        JObj kvs \<Rightarrow> Inr (case map_of kvs k of None \<Rightarrow> dflt | Some x \<Rightarrow> x)
      | _ \<Rightarrow> Inl (AttributeError
                 (quoted (type_name v) @ '' object has no attribute '' @ quoted ''get'')))"

text \<open>\<^verbatim>\<open>MessageRouter.emit\<close> under the namespace \<^verbatim>\<open>orchestrator\<close>: the route and the
  payload are appended to the messages the adapter has published.\<close>

definition router_route :: "string \<Rightarrow> string \<Rightarrow> string" where
  "router_route namespace event_name =
     (if event_name \<noteq> [] then namespace @ ''.'' @ event_name else namespace)"

definition emit :: "string \<Rightarrow> (string \<times> json) list \<Rightarrow> adapter \<Rightarrow> adapter" where
  "emit event_name pl st =
     st\<lparr>emitted := emitted st @ [(router_route ''orchestrator'' event_name, JObj pl)]\<rparr>"

text \<open>\<^verbatim>\<open>self._sessions.get(session_id)\<close>: the keys of the session dictionary are strings;
  a list or a dictionary is unhashable and raises \<^verbatim>\<open>TypeError\<close>; any other value is
  not a key.\<close>

definition get_session :: "adapter \<Rightarrow> json option \<Rightarrow> error + session option" where
  "get_session st sid =
     (case sid of
        Some (JStr s) \<Rightarrow> Inr (map_of (sessions st) s)
      | Some (JArr xs) \<Rightarrow> Inl (TypeError (''unhashable type: '' @ quoted ''list''))
      | Some (JObj kvs) \<Rightarrow> Inl (TypeError (''unhashable type: '' @ quoted ''dict''))
      | _ \<Rightarrow> Inr None)"

definition invalid_session :: "json option \<Rightarrow> adapter \<Rightarrow> adapter" where
  "invalid_session sid st =
     emit ''task_failed''
       [(''session_id'', json_opt sid), (''reason'', JStr ''invalid session or lock token'')] st"

definition new_task :: "config \<Rightarrow> string \<Rightarrow> payload \<Rightarrow> string \<Rightarrow> world \<Rightarrow> string \<times> world" where
  "new_task cfg task_type task_payload agent_id w =
     (let (created, w') = create_task cfg task_type task_payload agent_id w
      in (task_id created, w'))"

text \<open>The \<^verbatim>\<open>try\<close>/\<^verbatim>\<open>except KeyError\<close> of \<^verbatim>\<open>_handle_claim_request\<close>: the task id
  finally claimed, the result of the claim and the world.\<close>

definition claim_or_recreate :: "config \<Rightarrow> string \<Rightarrow> payload \<Rightarrow> string \<Rightarrow> string \<Rightarrow> world \<Rightarrow> error + (string \<times> bool \<times> world)" where
  "claim_or_recreate cfg task_type task_payload tid agent_id w =
     (case claim_task cfg tid agent_id w of
        Inr (claimed, w') \<Rightarrow> Inr (tid, claimed, w')
      | Inl (KeyError m) \<Rightarrow>
          (let (tid', w1) = new_task cfg task_type task_payload agent_id w in
           case claim_task cfg tid' agent_id w1 of
             Inl e \<Rightarrow> Inl e
           | Inr (claimed, w2) \<Rightarrow> Inr (tid', claimed, w2))
      | Inl e \<Rightarrow> Inl e)"

text \<open>\<^verbatim>\<open>if not task_id\<close>: a missing or empty task id makes the adapter create a task.\<close>

definition ensure_task :: "config \<Rightarrow> string \<Rightarrow> payload \<Rightarrow> string option \<Rightarrow> string \<Rightarrow> world \<Rightarrow> string \<times> world" where
  "ensure_task cfg task_type task_payload tid agent_id w =
     (case tid of
        Some t \<Rightarrow> if t \<noteq> [] then (t, w) else new_task cfg task_type task_payload agent_id w
      | None \<Rightarrow> new_task cfg task_type task_payload agent_id w)"

definition claim_for_agent :: "config \<Rightarrow> claim_request \<Rightarrow> string \<Rightarrow> adapter \<Rightarrow> error + adapter" where
  "claim_for_agent cfg req agent_id st =
     (let task_type = (case cr_task_type req of None \<Rightarrow> ''orchestrated_task'' | Some s \<Rightarrow> s);
          task_payload = (case cr_payload req of None \<Rightarrow> [] | Some p \<Rightarrow> p);
          (tid, w1) = ensure_task cfg task_type task_payload (cr_task_id req) agent_id (orchestrator st)
      in
      case claim_or_recreate cfg task_type task_payload tid agent_id w1 of
        Inl e \<Rightarrow> Inl e
      | Inr (tid', claimed, w2) \<Rightarrow>
          if \<not> claimed
          then Inr (emit ''task_failed''
                      [(''task_id'', JStr tid'), (''agent_id'', JStr agent_id),
                       (''reason'', JStr ''task claim rejected'')]
                      (st\<lparr>orchestrator := w2\<rparr>))
          else
            (let (u1, w3) = uuid4_hex w2;
                 session_id = ''sess_'' @ take 12 u1;
                 (u2, w4) = uuid4_hex w3;
                 lock_token = ''lock_'' @ take 12 u2;
                 st' = st\<lparr>orchestrator := w4,
                          sessions := AList.update session_id
                            \<lparr>sess_task_id = tid', sess_agent_id = agent_id,
                             sess_lock_token = lock_token\<rparr> (sessions st)\<rparr>
             in Inr (emit ''task_claimed''
                       [(''task_id'', JStr tid'), (''agent_id'', JStr agent_id),
                        (''session_id'', JStr session_id), (''lock_token'', JStr lock_token),
                        (''ttl_ms'', JInt (stale_after_seconds cfg * 1000))] st')))"

definition handle_claim_request :: "config \<Rightarrow> claim_request \<Rightarrow> adapter \<Rightarrow> error + adapter" where
  "handle_claim_request cfg req st =
     (case cr_agent_id req of
        Some agent_id \<Rightarrow>
          if agent_id \<noteq> [] then claim_for_agent cfg req agent_id st
          else Inr (emit ''task_failed''
                      [(''reason'', JStr ''agent_id is required''),
                       (''request'', claim_request_json req)] st)
      | None \<Rightarrow>
          Inr (emit ''task_failed''
                 [(''reason'', JStr ''agent_id is required''),
                  (''request'', claim_request_json req)] st))"

text \<open>\<^verbatim>\<open>self._sessions.pop(session_id, None)\<close>, reached only with the string id of a
  session that was found.\<close>

definition pop_session :: "json option \<Rightarrow> (string \<times> session) list \<Rightarrow> (string \<times> session) list" where
  "pop_session sid ss = (case sid of Some (JStr s) \<Rightarrow> AList.delete s ss | _ \<Rightarrow> ss)"

definition handle_heartbeat_request :: "config \<Rightarrow> heartbeat_request \<Rightarrow> adapter \<Rightarrow> error + adapter" where
  "handle_heartbeat_request cfg req st =
     (let session_id = hr_session_id req; lock_token = hr_lock_token req in
      case get_session st session_id of
        Inl e \<Rightarrow> Inl e
      | Inr None \<Rightarrow> Inr (invalid_session session_id st)
      | Inr (Some session) \<Rightarrow>
          if Some (JStr (sess_lock_token session)) \<noteq> lock_token
          then Inr (invalid_session session_id st)
          else
            (case heartbeat cfg (sess_task_id session) (sess_agent_id session) (orchestrator st) of
               Inl e \<Rightarrow> Inl e
             | Inr (success, w') \<Rightarrow>
                 if \<not> success
                 then Inr (emit ''task_failed''
                             [(''session_id'', json_opt session_id),
                              (''task_id'', JStr (sess_task_id session)),
                              (''reason'', JStr ''heartbeat rejected'')]
                             (st\<lparr>orchestrator := w'\<rparr>))
                 else Inr (emit ''task_heartbeat_ack''
                             [(''session_id'', json_opt session_id),
                              (''lock_token'', json_opt lock_token),
                              (''task_id'', JStr (sess_task_id session))]
                             (st\<lparr>orchestrator := w'\<rparr>))))"

text \<open>The values \<^verbatim>\<open>payload.get("outcome", "completed")\<close> and
  \<^verbatim>\<open>payload.get("result_payload", {})\<close> of a release request.\<close>

definition release_outcome :: "release_request \<Rightarrow> json" where
  "release_outcome req = (case rr_outcome req of None \<Rightarrow> JStr ''completed'' | Some v \<Rightarrow> v)"

definition release_payload :: "release_request \<Rightarrow> json" where
  "release_payload req = (case rr_result_payload req of None \<Rightarrow> JObj [] | Some v \<Rightarrow> v)"

text \<open>The orchestrator call of a release: for the outcome \<^verbatim>\<open>"failed"\<close> the reason is
  looked up in the result payload first, which raises when the payload is not a
  dictionary.\<close>

definition release_task :: "config \<Rightarrow> release_request \<Rightarrow> session \<Rightarrow> world \<Rightarrow> error + (bool \<times> world)" where
  "release_task cfg req session w =
     (if release_outcome req = JStr ''failed''
      then (case dict_get (release_payload req) ''reason'' (JStr ''released as failed'') of
              Inl e \<Rightarrow> Inl e
            | Inr reason \<Rightarrow> fail_task cfg (sess_task_id session) (sess_agent_id session) reason w)
      else complete_task cfg (sess_task_id session) (sess_agent_id session) w)"

definition handle_release_request :: "config \<Rightarrow> release_request \<Rightarrow> adapter \<Rightarrow> error + adapter" where
  "handle_release_request cfg req st =
     (let session_id = rr_session_id req; lock_token = rr_lock_token req;
          outcome = release_outcome req; result_payload = release_payload req
      in
      case get_session st session_id of
        Inl e \<Rightarrow> Inl e
      | Inr None \<Rightarrow> Inr (invalid_session session_id st)
      | Inr (Some session) \<Rightarrow>
          if Some (JStr (sess_lock_token session)) \<noteq> lock_token
          then Inr (invalid_session session_id st)
          else
            (let tid = sess_task_id session;
                 emit_event = (if outcome = JStr ''failed'' then ''task_failed'' else ''task_released'')
             in
             case release_task cfg req session (orchestrator st) of
               Inl e \<Rightarrow> Inl e
             | Inr (success, w') \<Rightarrow>
                 (let st' = st\<lparr>orchestrator := w',
                              sessions := pop_session session_id (sessions st)\<rparr>
                  in
                  if \<not> success
                  then Inr (emit ''task_failed''
                              [(''session_id'', json_opt session_id), (''task_id'', JStr tid),
                               (''reason'', JStr ''task release rejected'')] st')
                  else Inr (emit emit_event
                              [(''session_id'', json_opt session_id), (''task_id'', JStr tid),
                               (''lock_token'', json_opt lock_token), (''outcome'', outcome),
                               (''result_payload'', result_payload)] st'))))"

definition task_ids :: "world \<Rightarrow> string set" where
  "task_ids w = fst ` set (tasks_file w)"

definition sessions_inv :: "adapter \<Rightarrow> bool" where
  "sessions_inv st =
     list_all (\<lambda>ks. sess_task_id (snd ks) \<in> task_ids (orchestrator st)) (sessions st)"

text \<open>The states an adapter can be in: it starts with no session over any orchestrator
  store; every request handled without an exception gives a new state; other callers may
  use the orchestrator directly in between.\<close>

inductive reachable :: "config \<Rightarrow> adapter \<Rightarrow> bool" for cfg :: config where
  start: "sessions st = [] \<Longrightarrow> reachable cfg st"
| claim_request: "reachable cfg st \<Longrightarrow> handle_claim_request cfg req st = Inr st' \<Longrightarrow> reachable cfg st'"
| heartbeat_request: "reachable cfg st \<Longrightarrow> handle_heartbeat_request cfg hreq st = Inr st' \<Longrightarrow> reachable cfg st'"
| release_request: "reachable cfg st \<Longrightarrow> handle_release_request cfg rreq st = Inr st' \<Longrightarrow> reachable cfg st'"
| direct: "reachable cfg st \<Longrightarrow> reachable cfg (st\<lparr>orchestrator := apply_op cfg (orchestrator st) x\<rparr>)"

definition start_adapter :: adapter where
  "start_adapter = \<lparr>orchestrator = empty_world stale_clock, sessions = [], emitted = []\<rparr>"

definition demo_claim_request :: claim_request where
  "demo_claim_request = \<lparr>cr_task_id = None, cr_agent_id = Some ''agent1'', cr_task_type = None,
     cr_payload = None\<rparr>"

definition demo_session :: session where
  "demo_session = \<lparr>sess_task_id = ''task_0123456789ab'', sess_agent_id = ''agent1'',
     sess_lock_token = ''lock_fedcba987654''\<rparr>"

lemma task_ids_utc_now [simp]: "task_ids (snd (utc_now w)) = task_ids w"
  by (simp add: task_ids_def)

lemma task_ids_uuid4_hex [simp]: "task_ids (snd (uuid4_hex w)) = task_ids w"
  by (simp add: task_ids_def)

lemma task_ids_log_event [simp]: "task_ids (log_event cfg ty tid a md w) = task_ids w"
  by (simp add: task_ids_def)

lemma task_ids_save_update [simp]:
  "task_ids (save_tasks (AList.update k v ts) w) = insert k (fst ` set ts)"
  by (simp add: task_ids_def dom_update)

lemma task_ids_recover_stale_lock [simp]:
  "task_ids (snd (snd (recover_stale_lock cfg t tid w))) = task_ids w"
  by (simp add: task_ids_def)

lemma task_ids_map_of: "(tid \<in> task_ids w) = (map_of (tasks_file w) tid \<noteq> None)"
  by (simp add: task_ids_def map_of_eq_None_iff)

lemma task_ids_create_task:
  "task_ids (snd (create_task cfg ttl pl c w)) = insert (task_id (fst (create_task cfg ttl pl c w))) (task_ids w)"
  by (simp add: create_task_def load_tasks_def Let_def split_beta task_ids_def dom_update)

lemma task_ids_claim_task:
  assumes "claim_task cfg tid a w = Inr (b, w')"
  shows "task_ids w' = task_ids w \<and> tid \<in> task_ids w"
proof -
  obtain t0 where t0: "map_of (tasks_file w) tid = Some t0"
    using assms by (cases "map_of (tasks_file w) tid") (simp_all add: claim_task_def load_tasks_def get_task_or_raise_def)
  then have k: "tid \<in> task_ids w" by (simp add: task_ids_map_of)
  then have i: "insert tid (fst ` set (tasks_file w)) = task_ids w" by (auto simp: task_ids_def)
  obtain r t w1 where r: "recover_stale_lock cfg t0 tid w = (r, t, w1)" by (cases "recover_stale_lock cfg t0 tid w")
  have w1: "task_ids w1 = task_ids w" using task_ids_recover_stale_lock [of cfg t0 tid w] r by simp
  show ?thesis using assms t0 r w1 k i
    by (auto simp: claim_task_def load_tasks_def get_task_or_raise_def Let_def split_beta split: if_splits)
qed

lemma task_ids_heartbeat:
  assumes "heartbeat cfg tid a w = Inr (b, w')"
  shows "task_ids w' = task_ids w"
proof -
  obtain t0 where t0: "map_of (tasks_file w) tid = Some t0"
    using assms by (cases "map_of (tasks_file w) tid") (simp_all add: heartbeat_def load_tasks_def get_task_or_raise_def)
  then have k: "tid \<in> task_ids w" by (simp add: task_ids_map_of)
  then have i: "insert tid (fst ` set (tasks_file w)) = task_ids w" by (auto simp: task_ids_def)
  obtain r t w1 where r: "recover_stale_lock cfg t0 tid w = (r, t, w1)" by (cases "recover_stale_lock cfg t0 tid w")
  have w1: "task_ids w1 = task_ids w" using task_ids_recover_stale_lock [of cfg t0 tid w] r by simp
  show ?thesis using assms t0 r w1 k i
    by (auto simp: heartbeat_def load_tasks_def get_task_or_raise_def Let_def split_beta split: if_splits)
qed

lemma task_ids_complete_task:
  assumes "complete_task cfg tid a w = Inr (b, w')"
  shows "task_ids w' = task_ids w"
proof -
  obtain t0 where t0: "map_of (tasks_file w) tid = Some t0"
    using assms by (cases "map_of (tasks_file w) tid") (simp_all add: complete_task_def load_tasks_def get_task_or_raise_def)
  then have k: "tid \<in> task_ids w" by (simp add: task_ids_map_of)
  then have i: "insert tid (fst ` set (tasks_file w)) = task_ids w" by (auto simp: task_ids_def)
  obtain r t w1 where r: "recover_stale_lock cfg t0 tid w = (r, t, w1)" by (cases "recover_stale_lock cfg t0 tid w")
  have w1: "task_ids w1 = task_ids w" using task_ids_recover_stale_lock [of cfg t0 tid w] r by simp
  show ?thesis using assms t0 r w1 k i
    by (auto simp: complete_task_def load_tasks_def get_task_or_raise_def Let_def split_beta split: if_splits)
qed

lemma task_ids_fail_task:
  assumes "fail_task cfg tid a reason w = Inr (b, w')"
  shows "task_ids w' = task_ids w"
proof -
  obtain t0 where t0: "map_of (tasks_file w) tid = Some t0"
    using assms by (cases "map_of (tasks_file w) tid") (simp_all add: fail_task_def load_tasks_def get_task_or_raise_def)
  then have k: "tid \<in> task_ids w" by (simp add: task_ids_map_of)
  then have i: "insert tid (fst ` set (tasks_file w)) = task_ids w" by (auto simp: task_ids_def)
  obtain r t w1 where r: "recover_stale_lock cfg t0 tid w = (r, t, w1)" by (cases "recover_stale_lock cfg t0 tid w")
  have w1: "task_ids w1 = task_ids w" using task_ids_recover_stale_lock [of cfg t0 tid w] r by simp
  show ?thesis using assms t0 r w1 k i
    by (auto simp: fail_task_def load_tasks_def get_task_or_raise_def Let_def split_beta split: if_splits)
qed

lemma recover_loop_keys: "map fst (fst (snd (recover_loop cfg ts w))) = map fst ts"
  by (induction ts arbitrary: w) (auto simp: split_beta)

lemma task_ids_recover_stale_tasks:
  "task_ids (snd (recover_stale_tasks cfg w)) = task_ids w"
proof -
  have "fst ` set (fst (snd (recover_loop cfg (tasks_file w) w))) =
        set (map fst (fst (snd (recover_loop cfg (tasks_file w) w))))" by simp
  also have "\<dots> = fst ` set (tasks_file w)" by (simp only: recover_loop_keys set_map)
  finally show ?thesis
    by (simp add: recover_stale_tasks_def load_tasks_def Let_def split_beta task_ids_def)
qed

lemma task_ids_apply_op: "task_ids w \<subseteq> task_ids (apply_op cfg w x)"
proof (cases x)
  case (Create ttl pl c)
  then show ?thesis by (auto simp: task_ids_create_task)
next
  case (Claim tid a)
  then show ?thesis using task_ids_claim_task [of cfg tid a w]
    by (cases "claim_task cfg tid a w") auto
next
  case (Heartbeat tid a)
  then show ?thesis using task_ids_heartbeat [of cfg tid a w]
    by (cases "heartbeat cfg tid a w") auto
next
  case (Complete tid a)
  then show ?thesis using task_ids_complete_task [of cfg tid a w]
    by (cases "complete_task cfg tid a w") auto
next
  case (Fail tid a reason)
  then show ?thesis using task_ids_fail_task [of cfg tid a reason w]
    by (cases "fail_task cfg tid a reason w") auto
next
  case Recover
  then show ?thesis by (simp add: task_ids_recover_stale_tasks)
qed

lemma sessions_inv_mono:
  assumes "sessions_inv st" and "task_ids (orchestrator st) \<subseteq> task_ids w'"
    and "set ss \<subseteq> set (sessions st)"
  shows "sessions_inv (st\<lparr>orchestrator := w', sessions := ss\<rparr>)"
  using assms by (auto simp: sessions_inv_def list_all_iff)

lemma sessions_inv_emit [simp]: "sessions_inv (emit ev pl st) = sessions_inv st"
  by (simp add: sessions_inv_def emit_def)

lemma sessions_inv_invalid [simp]: "sessions_inv (invalid_session sid st) = sessions_inv st"
  by (simp add: invalid_session_def)

lemma set_update_subset: "set (AList.update k v ss) \<subseteq> insert (k, v) (set ss)"
  by (induction ss) auto

lemma sessions_inv_add:
  assumes "sessions_inv st" and "task_ids (orchestrator st) \<subseteq> task_ids w'" and "tid \<in> task_ids w'"
  shows "sessions_inv (st\<lparr>orchestrator := w',
           sessions := AList.update sid \<lparr>sess_task_id = tid, sess_agent_id = a, sess_lock_token = tok\<rparr>
                         (sessions st)\<rparr>)"
proof -
  have "set (AList.update sid \<lparr>sess_task_id = tid, sess_agent_id = a, sess_lock_token = tok\<rparr> (sessions st))
        \<subseteq> insert (sid, \<lparr>sess_task_id = tid, sess_agent_id = a, sess_lock_token = tok\<rparr>) (set (sessions st))"
    by (rule set_update_subset)
  then show ?thesis using assms by (fastforce simp: sessions_inv_def list_all_iff)
qed

lemma task_ids_new_task:
  "new_task cfg ty pl a w = (tid, w') \<Longrightarrow> task_ids w' = insert tid (task_ids w)"
  using task_ids_create_task [of cfg ty pl a w] by (auto simp: new_task_def split_beta)

lemma task_ids_ensure_task:
  "ensure_task cfg ty pl t a w = (tid, w') \<Longrightarrow> task_ids w \<subseteq> task_ids w'"
  by (auto simp: ensure_task_def dest!: task_ids_new_task split: option.splits if_splits)

lemma task_ids_claim_or_recreate:
  assumes "claim_or_recreate cfg ty pl tid a w = Inr (tid', c, w')"
  shows "task_ids w \<subseteq> task_ids w' \<and> tid' \<in> task_ids w'"
proof (cases "claim_task cfg tid a w")
  case (Inr r)
  then show ?thesis using assms task_ids_claim_task [of cfg tid a w "fst r" "snd r"]
    by (auto simp: claim_or_recreate_def split_beta)
next
  case (Inl e)
  show ?thesis
  proof (cases e)
    case (KeyError m)
    obtain t1 w1 where n: "new_task cfg ty pl a w = (t1, w1)" by (cases "new_task cfg ty pl a w")
    have w1: "task_ids w1 = insert t1 (task_ids w)" using n by (rule task_ids_new_task)
    from assms Inl KeyError n obtain c2 w2 where c: "claim_task cfg t1 a w1 = Inr (c2, w2)"
      and e: "tid' = t1" "w' = w2"
      by (auto simp: claim_or_recreate_def split: sum.splits)
    have "task_ids w2 = task_ids w1" using task_ids_claim_task [OF c] by simp
    then show ?thesis using w1 e by auto
  next
    case (ValueError m)
    then show ?thesis using assms Inl by (simp add: claim_or_recreate_def)
  next
    case (RuntimeError m)
    then show ?thesis using assms Inl by (simp add: claim_or_recreate_def)
  next
    case (AttributeError m)
    then show ?thesis using assms Inl by (simp add: claim_or_recreate_def)
  next
    case (TypeError m)
    then show ?thesis using assms Inl by (simp add: claim_or_recreate_def)
  qed
qed

lemma claim_for_agent_inv:
  assumes "sessions_inv st" and "claim_for_agent cfg req a st = Inr st'"
  shows "sessions_inv st'"
proof -
  define ty where "ty = (case cr_task_type req of None \<Rightarrow> ''orchestrated_task'' | Some s \<Rightarrow> s)"
  define pl where "pl = (case cr_payload req of None \<Rightarrow> [] | Some p \<Rightarrow> p)"
  obtain tid w1 where en: "ensure_task cfg ty pl (cr_task_id req) a (orchestrator st) = (tid, w1)"
    by (cases "ensure_task cfg ty pl (cr_task_id req) a (orchestrator st)")
  have s1: "task_ids (orchestrator st) \<subseteq> task_ids w1" using en by (rule task_ids_ensure_task)
  from assms(2) en obtain tid' c w2 where cl: "claim_or_recreate cfg ty pl tid a w1 = Inr (tid', c, w2)"
    by (cases "claim_or_recreate cfg ty pl tid a w1")
       (auto simp: claim_for_agent_def ty_def pl_def Let_def)
  have s2: "task_ids w1 \<subseteq> task_ids w2" and k: "tid' \<in> task_ids w2"
    using task_ids_claim_or_recreate [OF cl] by simp_all
  have sub: "task_ids (orchestrator st) \<subseteq> task_ids w2" using s1 s2 by blast
  show ?thesis
  proof (cases c)
    case False
    then have "st' = emit ''task_failed''
                      [(''task_id'', JStr tid'), (''agent_id'', JStr a),
                       (''reason'', JStr ''task claim rejected'')]
                      (st\<lparr>orchestrator := w2\<rparr>)"
      using assms(2) en cl by (simp add: claim_for_agent_def ty_def pl_def Let_def)
    moreover have "sessions_inv (st\<lparr>orchestrator := w2, sessions := sessions st\<rparr>)"
      using assms(1) sub by (rule sessions_inv_mono) simp
    ultimately show ?thesis by simp
  next
    case True
    define w4 where "w4 = snd (uuid4_hex (snd (uuid4_hex w2)))"
    have w4: "task_ids (orchestrator st) \<subseteq> task_ids w4" "tid' \<in> task_ids w4"
      using sub k by (simp_all add: w4_def)
    have "sessions_inv (st\<lparr>orchestrator := w4,
           sessions := AList.update (''sess_'' @ take 12 (fst (uuid4_hex w2)))
             \<lparr>sess_task_id = tid', sess_agent_id = a,
              sess_lock_token = ''lock_'' @ take 12 (fst (uuid4_hex (snd (uuid4_hex w2))))\<rparr>
             (sessions st)\<rparr>)"
      using assms(1) w4 by (rule sessions_inv_add)
    then show ?thesis
      using assms(2) en cl True
      by (auto simp: claim_for_agent_def ty_def pl_def Let_def split_beta w4_def)
  qed
qed

lemma handle_claim_request_inv:
  assumes "sessions_inv st" and "handle_claim_request cfg req st = Inr st'"
  shows "sessions_inv st'"
  using assms claim_for_agent_inv [of st cfg req _ st']
  by (auto simp: handle_claim_request_def split: option.splits if_splits)

definition is_dict :: "json \<Rightarrow> bool" where
  "is_dict v = (case v of JObj kvs \<Rightarrow> True | _ \<Rightarrow> False)"

text \<open>A release request whose reason can be looked up: the outcome is not
  \<^verbatim>\<open>"failed"\<close>, or the result payload is missing or a dictionary.\<close>

definition release_well_formed :: "release_request \<Rightarrow> bool" where
  "release_well_formed req = (release_outcome req \<noteq> JStr ''failed'' \<or> is_dict (release_payload req))"

lemma get_session_str [simp]: "get_session st (Some (JStr sid)) = Inr (map_of (sessions st) sid)"
  by (simp add: get_session_def)

lemma get_session_Some:
  "get_session st x = Inr (Some s) \<Longrightarrow> \<exists>sid. x = Some (JStr sid) \<and> map_of (sessions st) sid = Some s"
  by (auto simp: get_session_def split: option.splits json.splits)

lemma set_pop_session: "set (pop_session sid ss) \<subseteq> set ss"
  by (auto simp: pop_session_def AList.delete_eq split: option.splits json.splits)

lemma handle_heartbeat_request_inv:
  assumes "sessions_inv st" and "handle_heartbeat_request cfg req st = Inr st'"
  shows "sessions_inv st'"
proof (cases "get_session st (hr_session_id req)")
  case (Inl e)
  then show ?thesis using assms by (simp add: handle_heartbeat_request_def)
next
  case (Inr so)
  show ?thesis
  proof (cases so)
    case None
    then show ?thesis using assms Inr by (auto simp: handle_heartbeat_request_def)
  next
    case (Some s)
    show ?thesis
    proof (cases "Some (JStr (sess_lock_token s)) \<noteq> hr_lock_token req")
      case True
      then show ?thesis using assms Inr Some by (auto simp: handle_heartbeat_request_def)
    next
      case False
      from assms(2) Inr Some False obtain b w' where
        h: "heartbeat cfg (sess_task_id s) (sess_agent_id s) (orchestrator st) = Inr (b, w')"
        by (cases "heartbeat cfg (sess_task_id s) (sess_agent_id s) (orchestrator st)")
           (auto simp: handle_heartbeat_request_def)
      have "task_ids (orchestrator st) \<subseteq> task_ids w'" using task_ids_heartbeat [OF h] by simp
      then have "sessions_inv (st\<lparr>orchestrator := w', sessions := sessions st\<rparr>)"
        using assms(1) by (intro sessions_inv_mono) simp_all
      then show ?thesis using assms(2) Inr Some False h
        by (auto simp: handle_heartbeat_request_def Let_def split: if_splits)
    qed
  qed
qed

lemma complete_task_returns:
  "tid \<in> task_ids w \<Longrightarrow> \<exists>b w'. complete_task cfg tid a w = Inr (b, w')"
  by (auto simp: task_ids_map_of complete_task_def load_tasks_def get_task_or_raise_Some Let_def split_beta)

lemma fail_task_returns:
  "tid \<in> task_ids w \<Longrightarrow> \<exists>b w'. fail_task cfg tid a reason w = Inr (b, w')"
  by (auto simp: task_ids_map_of fail_task_def load_tasks_def get_task_or_raise_Some Let_def split_beta)

lemma dict_get_dict: "is_dict v \<Longrightarrow> \<exists>x. dict_get v k d = Inr x"
  by (cases v) (simp_all add: is_dict_def dict_get_def)

lemma dict_get_not_dict:
  "\<not> is_dict v \<Longrightarrow>
   dict_get v k d = Inl (AttributeError (quoted (type_name v) @ '' object has no attribute '' @ quoted ''get''))"
  by (cases v) (simp_all add: is_dict_def dict_get_def)

lemma release_task_ill_formed:
  "\<not> release_well_formed req \<Longrightarrow>
   release_task cfg req s w =
     Inl (AttributeError (quoted (type_name (release_payload req)) @ '' object has no attribute '' @
                          quoted ''get''))"
  by (simp add: release_well_formed_def release_task_def dict_get_not_dict)

lemma release_task_returns:
  assumes "release_well_formed req" and "sess_task_id s \<in> task_ids w"
  shows "\<exists>b w'. release_task cfg req s w = Inr (b, w') \<and> task_ids w' = task_ids w"
proof (cases "release_outcome req = JStr ''failed''")
  case True
  then have "is_dict (release_payload req)" using assms(1) by (simp add: release_well_formed_def)
  then obtain reason where d: "dict_get (release_payload req) ''reason'' (JStr ''released as failed'') = Inr reason"
    using dict_get_dict by blast
  obtain b w' where f: "fail_task cfg (sess_task_id s) (sess_agent_id s) reason w = Inr (b, w')"
    using fail_task_returns [OF assms(2)] by blast
  then have "task_ids w' = task_ids w" by (rule task_ids_fail_task)
  then show ?thesis using True d f by (simp add: release_task_def)
next
  case False
  obtain b w' where c: "complete_task cfg (sess_task_id s) (sess_agent_id s) w = Inr (b, w')"
    using complete_task_returns [OF assms(2)] by blast
  then have "task_ids w' = task_ids w" by (rule task_ids_complete_task)
  then show ?thesis using False c by (simp add: release_task_def)
qed

lemma release_task_task_ids:
  "release_task cfg req s w = Inr (b, w') \<Longrightarrow> task_ids w' = task_ids w"
  by (auto simp: release_task_def dest: task_ids_fail_task task_ids_complete_task
      split: if_splits sum.splits)

lemma handle_release_request_valid:
  assumes "map_of (sessions st) sid = Some s"
    and "Some (JStr (sess_lock_token s)) = rr_lock_token req"
    and "rr_session_id req = Some (JStr sid)"
    and "release_task cfg req s (orchestrator st) = Inr (b, w')"
  shows "\<exists>ev pl. handle_release_request cfg req st =
            Inr (emit ev pl (st\<lparr>orchestrator := w', sessions := AList.delete sid (sessions st)\<rparr>))"
  using assms by (auto simp: handle_release_request_def pop_session_def Let_def)

lemma handle_release_request_raises:
  assumes "map_of (sessions st) sid = Some s"
    and "Some (JStr (sess_lock_token s)) = rr_lock_token req"
    and "rr_session_id req = Some (JStr sid)"
    and "release_task cfg req s (orchestrator st) = Inl e"
  shows "handle_release_request cfg req st = Inl e"
  using assms by (simp add: handle_release_request_def Let_def)

lemma handle_release_request_invalid:
  "get_session st (rr_session_id req) = Inr None \<or>
   (\<exists>s. get_session st (rr_session_id req) = Inr (Some s) \<and>
        Some (JStr (sess_lock_token s)) \<noteq> rr_lock_token req)
   \<Longrightarrow> handle_release_request cfg req st = Inr (invalid_session (rr_session_id req) st)"
  by (auto simp: handle_release_request_def Let_def)

lemma handle_heartbeat_request_invalid:
  "get_session st (hr_session_id req) = Inr None \<or>
   (\<exists>s. get_session st (hr_session_id req) = Inr (Some s) \<and>
        Some (JStr (sess_lock_token s)) \<noteq> hr_lock_token req)
   \<Longrightarrow> handle_heartbeat_request cfg req st = Inr (invalid_session (hr_session_id req) st)"
  by (auto simp: handle_heartbeat_request_def Let_def)

lemma handle_release_request_inv:
  assumes "sessions_inv st" and "handle_release_request cfg req st = Inr st'"
  shows "sessions_inv st'"
proof (cases "get_session st (rr_session_id req)")
  case (Inl e)
  then show ?thesis using assms by (simp add: handle_release_request_def Let_def)
next
  case (Inr so)
  show ?thesis
  proof (cases so)
    case None
    then show ?thesis using assms Inr handle_release_request_invalid [of st req cfg] by auto
  next
    case (Some s)
    show ?thesis
    proof (cases "Some (JStr (sess_lock_token s)) = rr_lock_token req")
      case False
      then show ?thesis using assms Inr Some handle_release_request_invalid [of st req cfg] by auto
    next
      case True
      from get_session_Some Inr Some obtain sid where
        sid: "rr_session_id req = Some (JStr sid)" and m: "map_of (sessions st) sid = Some s"
        by blast
      show ?thesis
      proof (cases "release_task cfg req s (orchestrator st)")
        case (Inl e)
        then show ?thesis
          using assms(2) handle_release_request_raises [OF m True sid] by simp
      next
        case (Inr r)
        obtain b w' where r: "r = (b, w')" by (cases r)
        from handle_release_request_valid [OF m True sid] Inr r obtain ev pl where
          h: "handle_release_request cfg req st =
                Inr (emit ev pl (st\<lparr>orchestrator := w', sessions := AList.delete sid (sessions st)\<rparr>))"
          by blast
        have t: "task_ids w' = task_ids (orchestrator st)"
          using release_task_task_ids Inr r by blast
        have "set (AList.delete sid (sessions st)) \<subseteq> set (sessions st)"
          by (auto simp: AList.delete_eq)
        then have "sessions_inv (st\<lparr>orchestrator := w', sessions := AList.delete sid (sessions st)\<rparr>)"
          using assms(1) t by (intro sessions_inv_mono) auto
        then show ?thesis using assms(2) h by auto
      qed
    qed
  qed
qed

lemma reachable_sessions_inv: "reachable cfg st \<Longrightarrow> sessions_inv st"
proof (induction rule: reachable.induct)
  case (start st)
  then show ?case by (simp add: sessions_inv_def)
next
  case (claim_request st req st')
  then show ?case by (auto intro: handle_claim_request_inv)
next
  case (heartbeat_request st hreq st')
  then show ?case by (auto intro: handle_heartbeat_request_inv)
next
  case (release_request st rreq st')
  then show ?case by (auto intro: handle_release_request_inv)
next
  case (direct st x)
  have "sessions_inv (st\<lparr>orchestrator := apply_op cfg (orchestrator st) x, sessions := sessions st\<rparr>)"
    using direct.IH task_ids_apply_op by (intro sessions_inv_mono) auto
  then show ?case by simp
qed

definition claimed_adapter :: adapter where
  "claimed_adapter = projr (handle_claim_request demo_cfg demo_claim_request start_adapter)"

definition live_adapter :: adapter where
  "live_adapter = projr (handle_claim_request demo_cfg demo_claim_request
     \<lparr>orchestrator = empty_world second_clock, sessions = [], emitted = []\<rparr>)"

definition demo_release_request :: release_request where
  "demo_release_request = \<lparr>rr_session_id = Some (JStr ''sess_fedcba987654''),
     rr_lock_token = Some (JStr ''lock_fedcba987654''), rr_outcome = None,
     rr_result_payload = None\<rparr>"

definition null_release_request :: release_request where
  "null_release_request = \<lparr>rr_session_id = Some (JStr ''sess_fedcba987654''),
     rr_lock_token = Some (JStr ''lock_fedcba987654''), rr_outcome = Some (JStr ''failed''),
     rr_result_payload = Some JNull\<rparr>"

definition demo_heartbeat_request :: heartbeat_request where
  "demo_heartbeat_request = \<lparr>hr_session_id = Some (JStr ''sess_fedcba987654''),
     hr_lock_token = Some (JStr ''lock_fedcba987654'')\<rparr>"

definition claimed_message :: "string \<times> json" where
  "claimed_message =
     (''orchestrator.task_claimed'',
       JObj [(''task_id'', JStr ''task_0123456789ab''), (''agent_id'', JStr ''agent1''),
             (''session_id'', JStr ''sess_fedcba987654''),
             (''lock_token'', JStr ''lock_fedcba987654''), (''ttl_ms'', JInt 90000)])"

definition rejected_release :: "(string \<times> json) list" where
  "rejected_release =
     [claimed_message,
      (''orchestrator.task_failed'',
       JObj [(''session_id'', JStr ''sess_fedcba987654''),
             (''task_id'', JStr ''task_0123456789ab''),
             (''reason'', JStr ''task release rejected'')])]"

lemmas adapter_defs = handle_claim_request_def claim_for_agent_def ensure_task_def new_task_def
  claim_or_recreate_def handle_heartbeat_request_def handle_release_request_def get_session_def
  invalid_session_def pop_session_def emit_def router_route_def json_opt_def release_task_def
  release_outcome_def release_payload_def dict_get_def type_name_def

lemma handle_claim_request_demo:
  "handle_claim_request demo_cfg demo_claim_request start_adapter =
     Inr \<lparr>orchestrator = stale_world\<lparr>tasks_file := [(''task_0123456789ab'',
             demo_task\<lparr>title := ''orchestrated_task'', lock_acquired_at := Some 0,
               heartbeat_at := Some 0\<rparr>)],
           events_file :=
             [\<lparr>event_id = ''event_fedcba9876'', timestamp = 0, etype = ''task_created'',
                 ev_task_id = ''task_0123456789ab'', actor = ''agent1'',
                 metadata = [(''title'', JStr ''orchestrated_task'')]\<rparr>,
              \<lparr>event_id = ''event_fedcba9876'', timestamp = 0, etype = ''task_claimed'',
                 ev_task_id = ''task_0123456789ab'', actor = ''agent1'', metadata = []\<rparr>],
           draws := 5\<rparr>,
        sessions = [(''sess_fedcba987654'', demo_session)],
        emitted = [claimed_message]\<rparr>"
  by (simp add: adapter_defs stale_world_eq start_adapter_def demo_claim_request_def
      demo_session_def claimed_message_def orch_defs demo_defs)

lemma claimed_adapter_eq:
  "claimed_adapter =
     \<lparr>orchestrator = stale_world\<lparr>tasks_file := [(''task_0123456789ab'',
             demo_task\<lparr>title := ''orchestrated_task'', lock_acquired_at := Some 0,
               heartbeat_at := Some 0\<rparr>)],
           events_file :=
             [\<lparr>event_id = ''event_fedcba9876'', timestamp = 0, etype = ''task_created'',
                 ev_task_id = ''task_0123456789ab'', actor = ''agent1'',
                 metadata = [(''title'', JStr ''orchestrated_task'')]\<rparr>,
              \<lparr>event_id = ''event_fedcba9876'', timestamp = 0, etype = ''task_claimed'',
                 ev_task_id = ''task_0123456789ab'', actor = ''agent1'', metadata = []\<rparr>],
           draws := 5\<rparr>,
        sessions = [(''sess_fedcba987654'', demo_session)],
        emitted = [claimed_message]\<rparr>"
  by (simp add: claimed_adapter_def handle_claim_request_demo)

lemma reachable_claimed_adapter: "reachable demo_cfg claimed_adapter"
proof -
  have "reachable demo_cfg start_adapter"
    by (rule reachable.start) (simp add: start_adapter_def)
  moreover have "handle_claim_request demo_cfg demo_claim_request start_adapter = Inr claimed_adapter"
    by (simp only: handle_claim_request_demo claimed_adapter_eq)
  ultimately show ?thesis by (rule reachable.claim_request)
qed

lemma rejected_release_demo:
  "map emitted [projr (handle_release_request demo_cfg demo_release_request claimed_adapter)] =
     [rejected_release]"
  by (simp add: claimed_adapter_eq adapter_defs stale_world_eq demo_release_request_def
      demo_session_def rejected_release_def claimed_message_def orch_defs demo_defs)

lemma live_adapter_eq:
  "live_adapter =
     \<lparr>orchestrator = claimed_world\<lparr>tasks_file := [(''task_0123456789ab'',
             demo_task\<lparr>title := ''orchestrated_task''\<rparr>)],
           events_file :=
             [\<lparr>event_id = ''event_fedcba9876'', timestamp = 1000000, etype = ''task_created'',
                 ev_task_id = ''task_0123456789ab'', actor = ''agent1'',
                 metadata = [(''title'', JStr ''orchestrated_task'')]\<rparr>,
              \<lparr>event_id = ''event_fedcba9876'', timestamp = 3000000, etype = ''task_claimed'',
                 ev_task_id = ''task_0123456789ab'', actor = ''agent1'', metadata = []\<rparr>],
           draws := 5\<rparr>,
        sessions = [(''sess_fedcba987654'', demo_session)],
        emitted = [claimed_message]\<rparr>"
  by (simp add: live_adapter_def adapter_defs claimed_world_eq demo_claim_request_def
      demo_session_def claimed_message_def orch_defs demo_defs)

text \<open>
  Claim C9, as amended. In every state the adapter can reach, a release request that
  presents the session id and lock token of a live session, and whose outcome is not
  \<^verbatim>\<open>"failed"\<close> or whose result payload is missing or a dictionary, is handled without an
  exception and removes that session, whether \<open>complete_task\<close> or \<open>fail_task\<close> accepted
  the release or returned \<open>False\<close>; a heartbeat or release request that then reuses the
  same session id and lock token only publishes \<^verbatim>\<open>task_failed\<close> with the reason
  "invalid session or lock token". When the outcome is \<^verbatim>\<open>"failed"\<close> and the result
  payload is present but not a dictionary, the handler raises \<^verbatim>\<open>AttributeError\<close> at the
  lookup of the reason, before the orchestrator is called and before the session is
  removed.
\<close>

theorem release_removes_session_first:
  assumes "reachable cfg st"
    and "map_of (sessions st) sid = Some s"
    and "sess_lock_token s = tok"
  shows
    "(release_well_formed \<lparr>rr_session_id = Some (JStr sid), rr_lock_token = Some (JStr tok),
         rr_outcome = oc, rr_result_payload = rp\<rparr> \<longrightarrow>
       (\<exists>st'. handle_release_request cfg
            \<lparr>rr_session_id = Some (JStr sid), rr_lock_token = Some (JStr tok), rr_outcome = oc,
             rr_result_payload = rp\<rparr> st = Inr st' \<and>
          map_of (sessions st') sid = None \<and>
          handle_heartbeat_request cfg
            \<lparr>hr_session_id = Some (JStr sid), hr_lock_token = Some (JStr tok)\<rparr> st' =
            Inr (invalid_session (Some (JStr sid)) st') \<and>
          handle_release_request cfg
            \<lparr>rr_session_id = Some (JStr sid), rr_lock_token = Some (JStr tok), rr_outcome = oc',
             rr_result_payload = rp'\<rparr> st' = Inr (invalid_session (Some (JStr sid)) st'))) \<and>
     (\<not> release_well_formed \<lparr>rr_session_id = Some (JStr sid), rr_lock_token = Some (JStr tok),
         rr_outcome = oc, rr_result_payload = rp\<rparr> \<longrightarrow>
       handle_release_request cfg
            \<lparr>rr_session_id = Some (JStr sid), rr_lock_token = Some (JStr tok), rr_outcome = oc,
             rr_result_payload = rp\<rparr> st =
         Inl (AttributeError (quoted (type_name (json_opt rp)) @ '' object has no attribute '' @
                              quoted ''get'')))"
proof (intro conjI impI)
  define req where "req = \<lparr>rr_session_id = Some (JStr sid), rr_lock_token = Some (JStr tok),
     rr_outcome = oc, rr_result_payload = rp\<rparr>"
  have l: "Some (JStr (sess_lock_token s)) = rr_lock_token req"
    using assms(3) by (simp add: req_def)
  have i: "rr_session_id req = Some (JStr sid)" by (simp add: req_def)
  {
    assume wf: "release_well_formed req"
    have "sessions_inv st" using assms(1) by (rule reachable_sessions_inv)
    moreover have "(sid, s) \<in> set (sessions st)" using assms(2) by (rule map_of_SomeD)
    ultimately have k: "sess_task_id s \<in> task_ids (orchestrator st)"
      by (auto simp: sessions_inv_def list_all_iff)
    from release_task_returns [OF wf k, of cfg]
    obtain b w' where r: "release_task cfg req s (orchestrator st) = Inr (b, w')" by blast
    from handle_release_request_valid [OF assms(2) l i r]
    obtain ev pl where
      h: "handle_release_request cfg req st =
            Inr (emit ev pl (st\<lparr>orchestrator := w', sessions := AList.delete sid (sessions st)\<rparr>))"
      by blast
    define st' where "st' = emit ev pl (st\<lparr>orchestrator := w', sessions := AList.delete sid (sessions st)\<rparr>)"
    have gone: "map_of (sessions st') sid = None"
      by (simp add: st'_def emit_def delete_conv')
    have "handle_heartbeat_request cfg
            \<lparr>hr_session_id = Some (JStr sid), hr_lock_token = Some (JStr tok)\<rparr> st' =
            Inr (invalid_session (Some (JStr sid)) st')"
      using gone handle_heartbeat_request_invalid
        [of st' "\<lparr>hr_session_id = Some (JStr sid), hr_lock_token = Some (JStr tok)\<rparr>" cfg]
      by simp
    moreover have "handle_release_request cfg
            \<lparr>rr_session_id = Some (JStr sid), rr_lock_token = Some (JStr tok), rr_outcome = oc',
             rr_result_payload = rp'\<rparr> st' = Inr (invalid_session (Some (JStr sid)) st')"
      using gone handle_release_request_invalid
        [of st' "\<lparr>rr_session_id = Some (JStr sid), rr_lock_token = Some (JStr tok), rr_outcome = oc',
             rr_result_payload = rp'\<rparr>" cfg]
      by simp
    ultimately have "\<exists>st'. handle_release_request cfg req st = Inr st' \<and>
          map_of (sessions st') sid = None \<and>
          handle_heartbeat_request cfg
            \<lparr>hr_session_id = Some (JStr sid), hr_lock_token = Some (JStr tok)\<rparr> st' =
            Inr (invalid_session (Some (JStr sid)) st') \<and>
          handle_release_request cfg
            \<lparr>rr_session_id = Some (JStr sid), rr_lock_token = Some (JStr tok), rr_outcome = oc',
             rr_result_payload = rp'\<rparr> st' = Inr (invalid_session (Some (JStr sid)) st')"
      using h gone by (auto simp: st'_def)
  }
  then show "\<exists>st'. handle_release_request cfg
            \<lparr>rr_session_id = Some (JStr sid), rr_lock_token = Some (JStr tok), rr_outcome = oc,
             rr_result_payload = rp\<rparr> st = Inr st' \<and>
          map_of (sessions st') sid = None \<and>
          handle_heartbeat_request cfg
            \<lparr>hr_session_id = Some (JStr sid), hr_lock_token = Some (JStr tok)\<rparr> st' =
            Inr (invalid_session (Some (JStr sid)) st') \<and>
          handle_release_request cfg
            \<lparr>rr_session_id = Some (JStr sid), rr_lock_token = Some (JStr tok), rr_outcome = oc',
             rr_result_payload = rp'\<rparr> st' = Inr (invalid_session (Some (JStr sid)) st')"
    if "release_well_formed \<lparr>rr_session_id = Some (JStr sid), rr_lock_token = Some (JStr tok),
         rr_outcome = oc, rr_result_payload = rp\<rparr>"
    using that by (simp add: req_def)
  {
    assume nwf: "\<not> release_well_formed req"
    then have p: "release_payload req = json_opt rp"
      by (cases rp) (simp_all add: release_well_formed_def release_payload_def is_dict_def
          json_opt_def req_def)
    have "release_task cfg req s (orchestrator st) =
        Inl (AttributeError (quoted (type_name (json_opt rp)) @ '' object has no attribute '' @
                             quoted ''get''))"
      using release_task_ill_formed [OF nwf, of cfg s "orchestrator st"] p by simp
    from handle_release_request_raises [OF assms(2) l i this]
    have "handle_release_request cfg req st =
        Inl (AttributeError (quoted (type_name (json_opt rp)) @ '' object has no attribute '' @
                             quoted ''get''))" .
  }
  then show "handle_release_request cfg
            \<lparr>rr_session_id = Some (JStr sid), rr_lock_token = Some (JStr tok), rr_outcome = oc,
             rr_result_payload = rp\<rparr> st =
         Inl (AttributeError (quoted (type_name (json_opt rp)) @ '' object has no attribute '' @
                              quoted ''get''))"
    if "\<not> release_well_formed \<lparr>rr_session_id = Some (JStr sid), rr_lock_token = Some (JStr tok),
         rr_outcome = oc, rr_result_payload = rp\<rparr>"
    using that by (simp add: req_def)
qed

theorem release_removes_session_first_witness:
  "reachable demo_cfg claimed_adapter \<and>
   map_of (sessions claimed_adapter) ''sess_fedcba987654'' = Some demo_session \<and>
   sess_lock_token demo_session = ''lock_fedcba987654'' \<and>
   release_well_formed demo_release_request \<and>
   \<not> release_well_formed null_release_request \<and>
   map emitted [projr (handle_release_request demo_cfg demo_release_request claimed_adapter)] =
     [rejected_release] \<and>
   (\<exists>st'. handle_release_request demo_cfg demo_release_request claimed_adapter = Inr st' \<and>
          map_of (sessions st') ''sess_fedcba987654'' = None \<and>
          handle_heartbeat_request demo_cfg demo_heartbeat_request st' =
            Inr (invalid_session (Some (JStr ''sess_fedcba987654'')) st') \<and>
          handle_release_request demo_cfg demo_release_request st' =
            Inr (invalid_session (Some (JStr ''sess_fedcba987654'')) st')) \<and>
   handle_release_request demo_cfg null_release_request claimed_adapter =
     Inl (AttributeError (quoted ''NoneType'' @ '' object has no attribute '' @ quoted ''get''))"
proof -
  have r: "reachable demo_cfg claimed_adapter" by (rule reachable_claimed_adapter)
  have m: "map_of (sessions claimed_adapter) ''sess_fedcba987654'' = Some demo_session"
    by (simp add: claimed_adapter_eq)
  have t: "sess_lock_token demo_session = ''lock_fedcba987654''"
    by (simp add: demo_session_def)
  have g: "release_well_formed demo_release_request"
    by (simp add: release_well_formed_def release_outcome_def demo_release_request_def)
  have b: "\<not> release_well_formed null_release_request"
    by (simp add: release_well_formed_def release_outcome_def release_payload_def is_dict_def
        null_release_request_def)
  show ?thesis
    using r m t g b rejected_release_demo
      release_removes_session_first [OF r m t, of None None None None]
      release_removes_session_first [OF r m t, of "Some (JStr ''failed'')" "Some JNull"]
    by (simp add: demo_release_request_def null_release_request_def demo_heartbeat_request_def
        json_opt_def type_name_def)
qed

text \<open>
  Claim C9 as stated, for every release request with matching credentials, fails at the
  request \<^verbatim>\<open>{outcome: "failed", result_payload: null}\<close>: the handler raises, the session
  stays, and a heartbeat request with the same session id and lock token is acknowledged.
\<close>

theorem malformed_release_keeps_session_counterexample:
  "map_of (sessions live_adapter) ''sess_fedcba987654'' = Some demo_session \<and>
   rr_session_id null_release_request = Some (JStr ''sess_fedcba987654'') \<and>
   rr_lock_token null_release_request = Some (JStr (sess_lock_token demo_session)) \<and>
   handle_release_request demo_cfg null_release_request live_adapter =
     Inl (AttributeError (quoted ''NoneType'' @ '' object has no attribute '' @ quoted ''get'')) \<and>
   \<not> isl (handle_heartbeat_request demo_cfg demo_heartbeat_request live_adapter) \<and>
   map fst (emitted (projr (handle_heartbeat_request demo_cfg demo_heartbeat_request live_adapter))) =
     [''orchestrator.task_claimed'', ''orchestrator.task_heartbeat_ack'']"
  by (simp add: live_adapter_eq adapter_defs claimed_world_eq null_release_request_def
      demo_heartbeat_request_def demo_session_def claimed_message_def orch_defs demo_defs)

section \<open>Model registry\<close>

text \<open>
  The model follows \<^verbatim>\<open>infrastructure/model_registry.py\<close>. A \<^verbatim>\<open>ModelRecord\<close> is a
  mutable object: the registry's dictionary holds references to the records, and
  \<open>objects\<close> maps a reference to the current field values of its record. A function that
  returns \<^verbatim>\<open>ModelRecord\<close> objects returns references; \<^verbatim>\<open>asdict\<close> returns field
  values. The type \<open>'c\<close> is the type of connectors.
\<close>

type_synonym ref = nat

record model_record =
  model_id :: string
  source :: string
  model_type :: string
  capabilities :: "string list"
  abliteration_status :: string
  endpoint :: "string option"
  record_metadata :: "(string \<times> string) list"

record 'c registry =
  max_models :: int
  records :: "(string \<times> ref) list"
  connectors :: "(string \<times> 'c) list"
  objects :: "ref \<Rightarrow> model_record"
  next_ref :: ref

definition register_model ::
  "string \<Rightarrow> string \<Rightarrow> string \<Rightarrow> string list option \<Rightarrow> string \<Rightarrow> string option \<Rightarrow>
   (string \<times> string) list option \<Rightarrow> 'c option \<Rightarrow> 'c registry \<Rightarrow> error + (ref \<times> 'c registry)" where
  "register_model mid src mtype caps st ep md connector reg =
     (if map_of (records reg) mid \<noteq> None
      then Inl (ValueError (''model '' @ quoted mid @ '' already registered''))
      else if max_models reg \<le> int (length (records reg))
      then Inl (RuntimeError ''registry capacity reached'')
      else
        (let r = next_ref reg;
             record = \<lparr>model_id = mid, source = src, model_type = mtype,
                       capabilities = (case caps of None \<Rightarrow> [] | Some c \<Rightarrow> c),
                       abliteration_status = st, endpoint = ep,
                       record_metadata = (case md of None \<Rightarrow> [] | Some m \<Rightarrow> m)\<rparr>
         in Inr (r, reg\<lparr>records := AList.update mid r (records reg),
                       connectors := (case connector of
                                        None \<Rightarrow> connectors reg
                                      | Some c \<Rightarrow> AList.update mid c (connectors reg)),
                       objects := (objects reg)(r := record),
                       next_ref := Suc r\<rparr>)))"


definition get_model :: "string \<Rightarrow> 'c registry \<Rightarrow> ref option" where
  "get_model mid reg = map_of (records reg) mid"

definition list_models :: "'c registry \<Rightarrow> ref list" where
  "list_models reg = map snd (records reg)"

definition update_status :: "string \<Rightarrow> string \<Rightarrow> 'c registry \<Rightarrow> error + 'c registry" where
  "update_status mid st reg =
     (case map_of (records reg) mid of
        None \<Rightarrow> Inl (KeyError (''unknown model '' @ quoted mid))
      | Some r \<Rightarrow>
          Inr (reg\<lparr>objects := (objects reg)(r := (objects reg r)\<lparr>abliteration_status := st\<rparr>)\<rparr>))"


definition get_connector :: "string \<Rightarrow> 'c registry \<Rightarrow> 'c option" where
  "get_connector mid reg = map_of (connectors reg) mid"

definition export_records :: "'c registry \<Rightarrow> model_record list" where
  "export_records reg = map (\<lambda>kr. objects reg (snd kr)) (records reg)"

text \<open>What a caller reads, in the registry state \<open>reg\<close>, through record references it was
  given earlier.\<close>

definition read_records :: "'c registry \<Rightarrow> ref list \<Rightarrow> model_record list" where
  "read_records reg rs = map (objects reg) rs"

text \<open>A caller's assignment \<^verbatim>\<open>record.abliteration_status = st\<close> to a record object it
  was given by \<open>get_model\<close> or \<open>list_models\<close>.\<close>

definition assign_status :: "ref \<Rightarrow> string \<Rightarrow> 'c registry \<Rightarrow> 'c registry" where
  "assign_status r st reg =
     reg\<lparr>objects := (objects reg)(r := (objects reg r)\<lparr>abliteration_status := st\<rparr>)\<rparr>"

definition new_registry :: "int \<Rightarrow> 'c registry" where
  "new_registry n = \<lparr>max_models = n, records = [], connectors = [],
     objects = (\<lambda>r. \<lparr>model_id = [], source = [], model_type = [], capabilities = [],
                       abliteration_status = [], endpoint = None, record_metadata = []\<rparr>),
     next_ref = 0\<rparr>"

definition one_model :: "nat registry" where
  "one_model = snd (projr (register_model ''m1'' ''local'' ''llama'' None ''pending'' None None None
                            (new_registry 32)))"

definition one_model_running :: "nat registry" where
  "one_model_running = projr (update_status ''m1'' ''running'' one_model)"

lemma one_model_eq:
  "one_model = (new_registry 32)\<lparr>records := [(''m1'', 0)],
     objects := (objects (new_registry 32 :: nat registry))(0 := \<lparr>model_id = ''m1'', source = ''local'',
       model_type = ''llama'', capabilities = [], abliteration_status = ''pending'',
       endpoint = None, record_metadata = []\<rparr>),
     next_ref := Suc 0\<rparr>"
  by (simp add: one_model_def register_model_def new_registry_def)

lemma update_status_one_model:
  "update_status ''m1'' ''running'' one_model =
     Inr (one_model\<lparr>objects := (objects one_model)(0 := \<lparr>model_id = ''m1'', source = ''local'',
       model_type = ''llama'', capabilities = [], abliteration_status = ''running'',
       endpoint = None, record_metadata = []\<rparr>)\<rparr>)"
  by (simp add: update_status_def one_model_eq)

lemma update_status_demo: "update_status ''m1'' ''running'' one_model = Inr one_model_running"
  by (simp add: one_model_running_def update_status_one_model)

lemma one_model_running_eq:
  "one_model_running = one_model\<lparr>objects := (objects one_model)(0 := \<lparr>model_id = ''m1'',
       source = ''local'', model_type = ''llama'', capabilities = [],
       abliteration_status = ''running'', endpoint = None, record_metadata = []\<rparr>)\<rparr>"
  by (simp add: one_model_running_def update_status_one_model)

text \<open>
  Claim C7, as amended. \<open>export_records\<close> returns the field values the records have at
  the time of the call, a copy that no later operation can change. \<open>list_models\<close> returns
  a new list of the registry's own record objects and \<open>get_model\<close> returns the registry's
  own record object: \<open>update_status\<close> keeps the same objects and changes the status in
  place, so the record of the updated model, read through a reference returned before the
  update, has the new status, and the records read through a list returned before the
  update are the current state of the registry. In the other direction, a caller that
  assigns a status to a record it was given changes the record the registry stores.
\<close>

theorem reads_share_record_objects:
  "export_records reg = read_records reg (list_models reg) \<and>
   (update_status mid st reg = Inr reg' \<longrightarrow>
      list_models reg' = list_models reg \<and>
      get_model mid reg' = get_model mid reg \<and>
      (\<exists>r. get_model mid reg = Some r \<and> r \<in> set (list_models reg) \<and>
           objects reg' r = (objects reg r)\<lparr>abliteration_status := st\<rparr>) \<and>
      read_records reg' (list_models reg) = export_records reg') \<and>
   (get_model mid reg = Some r0 \<longrightarrow>
      get_model mid (assign_status r0 st reg) = Some r0 \<and>
      abliteration_status (objects (assign_status r0 st reg) r0) = st)"
proof (intro conjI impI)
  show "export_records reg = read_records reg (list_models reg)"
    by (simp add: export_records_def read_records_def list_models_def)
next
  assume "get_model mid reg = Some r0"
  then show "get_model mid (assign_status r0 st reg) = Some r0"
    by (simp add: get_model_def assign_status_def)
next
  show "abliteration_status (objects (assign_status r0 st reg) r0) = st"
    by (simp add: assign_status_def)
next
  assume u: "update_status mid st reg = Inr reg'"
  then obtain r where r: "map_of (records reg) mid = Some r"
    and reg': "reg' = reg\<lparr>objects := (objects reg)(r := (objects reg r)\<lparr>abliteration_status := st\<rparr>)\<rparr>"
    by (auto simp: update_status_def split: option.splits)
  show "list_models reg' = list_models reg" by (simp add: reg' list_models_def)
  show "get_model mid reg' = get_model mid reg" by (simp add: reg' get_model_def)
  have "(mid, r) \<in> set (records reg)" using r by (rule map_of_SomeD)
  then have "r \<in> set (list_models reg)" by (force simp: list_models_def)
  then show "\<exists>r. get_model mid reg = Some r \<and> r \<in> set (list_models reg) \<and>
           objects reg' r = (objects reg r)\<lparr>abliteration_status := st\<rparr>"
    using r by (simp add: reg' get_model_def)
  show "read_records reg' (list_models reg) = export_records reg'"
    by (simp add: reg' export_records_def read_records_def list_models_def)
qed

theorem reads_share_record_objects_witness:
  "update_status ''m1'' ''running'' one_model = Inr one_model_running \<and>
   export_records one_model = read_records one_model (list_models one_model) \<and>
   list_models one_model_running = list_models one_model \<and>
   get_model ''m1'' one_model_running = get_model ''m1'' one_model \<and>
   (\<exists>r. get_model ''m1'' one_model = Some r \<and> r \<in> set (list_models one_model) \<and>
        objects one_model_running r = (objects one_model r)\<lparr>abliteration_status := ''running''\<rparr>) \<and>
   read_records one_model_running (list_models one_model) = export_records one_model_running \<and>
   get_model ''m1'' one_model = Some 0 \<and>
   get_model ''m1'' (assign_status 0 ''running'' one_model) = Some 0 \<and>
   abliteration_status (objects (assign_status 0 ''running'' one_model) 0) = ''running''"
proof -
  have u: "update_status ''m1'' ''running'' one_model = Inr one_model_running"
    by (rule update_status_demo)
  have g: "get_model ''m1'' one_model = Some 0"
    by (simp add: get_model_def one_model_eq)
  show ?thesis
    using u g reads_share_record_objects [of one_model "''m1''" "''running''" one_model_running 0]
    by simp
qed

text \<open>
  Claim C7 as stated fails for \<open>list_models\<close> and \<open>get_model\<close>: a registry with one
  record (status \<open>pending\<close>) returns its record list and its record; after
  \<^verbatim>\<open>update_status("m1", "running")\<close> the records returned earlier read \<open>running\<close>;
  and assigning \<open>failed\<close> to the returned record changes what the registry exports.
\<close>

theorem list_models_snapshot_counterexample:
  "map abliteration_status (read_records one_model (list_models one_model)) = [''pending''] \<and>
   map abliteration_status (export_records one_model) = [''pending''] \<and>
   update_status ''m1'' ''running'' one_model = Inr one_model_running \<and>
   map abliteration_status (read_records one_model_running (list_models one_model)) = [''running''] \<and>
   map abliteration_status (read_records one_model_running (map the [get_model ''m1'' one_model])) =
     [''running''] \<and>
   map abliteration_status (export_records (assign_status 0 ''failed'' one_model)) = [''failed'']"
proof -
  have "map abliteration_status (read_records one_model (list_models one_model)) = [''pending''] \<and>
   map abliteration_status (export_records one_model) = [''pending''] \<and>
   map abliteration_status (read_records one_model_running (list_models one_model)) = [''running''] \<and>
   map abliteration_status (read_records one_model_running (map the [get_model ''m1'' one_model])) =
     [''running''] \<and>
   map abliteration_status (export_records (assign_status 0 ''failed'' one_model)) = [''failed'']"
    by (simp add: one_model_running_eq read_records_def export_records_def list_models_def
        get_model_def assign_status_def one_model_eq)
  then show ?thesis using update_status_demo by simp
qed

section \<open>Batch workflow\<close>

text \<open>
  The model follows \<open>run_batch\<close> of \<^verbatim>\<open>infrastructure/abliteration_workflow.py\<close>. The
  workflow is an argument of \<open>run_batch\<close>: \<open>run_for_model mid c\<close> is the outcome of the
  future submitted for the unit \<open>mid\<close> with connector \<open>c\<close>, either the
  \<^verbatim>\<open>WorkflowResult\<close> or \<open>Inl msg\<close> when the workflow raises an exception whose
  \<^verbatim>\<open>str\<close> is \<open>msg\<close>. The order in which the worker pool completes the futures is the
  argument \<open>as_completed\<close>, which rearranges the submitted futures. Python floats are
  modelled as reals.
\<close>

record metric =
  before :: real
  after :: real
  delta :: real

record workflow_result =
  wr_model_id :: string
  refusal_rates :: metric
  benchmark_scores :: metric
  personality_shifts :: metric
  wr_task_ids :: "string list"

datatype result_entry = Success workflow_result | Failure string string

datatype num = IntV int | FloatV real

record report =
  summary :: "(string \<times> num) list"
  models :: "result_entry list"
  registry_snapshot :: "model_record list option"

record 'c batch_state =
  registry :: "'c registry"
  batch_results_file :: "report option"

type_synonym future = "string \<times> (string + workflow_result)"

text \<open>\<^verbatim>\<open>str(exc)\<close> for the exceptions of the registry; \<^verbatim>\<open>str\<close> of a \<^verbatim>\<open>KeyError\<close> is
  the \<^verbatim>\<open>repr\<close> of its argument, here for an argument that contains a single quote and
  no double quote or backslash, as the registry's messages do for ordinary model ids.\<close>

definition str_exc :: "error \<Rightarrow> string" where
  "str_exc e = (case e of
       KeyError m \<Rightarrow> [CHR 0x22] @ m @ [CHR 0x22]
     | ValueError m \<Rightarrow> m
     | RuntimeError m \<Rightarrow> m)"

text \<open>The first loop: one future per record that has a connector.\<close>

fun submit_loop :: "(string \<Rightarrow> 'c \<Rightarrow> string + workflow_result) \<Rightarrow> ref list \<Rightarrow> 'c registry \<Rightarrow>
    future list \<Rightarrow> error + (future list \<times> 'c registry)" where
  "submit_loop run_for_model [] reg future_map = Inr (future_map, reg)"
| "submit_loop run_for_model (r # rs) reg future_map =
     (let mid = model_id (objects reg r) in
      case get_connector mid reg of
        None \<Rightarrow> submit_loop run_for_model rs reg future_map
      | Some connector \<Rightarrow>
          (case update_status mid ''running'' reg of
             Inl e \<Rightarrow> Inl e
           | Inr reg' \<Rightarrow>
               submit_loop run_for_model rs reg'
                 (future_map @ [(mid, run_for_model mid connector)])))"

text \<open>The second loop, over the futures in completion order, with its
  \<^verbatim>\<open>try\<close>/\<^verbatim>\<open>except Exception\<close>: an exception raised in the \<^verbatim>\<open>try\<close> block, by the
  future or by \<open>update_status\<close>, is handled by the \<^verbatim>\<open>except\<close> block; an exception raised
  in the \<^verbatim>\<open>except\<close> block leaves \<open>run_batch\<close>.\<close>

fun complete_loop :: "future list \<Rightarrow> result_entry list \<Rightarrow> 'c registry \<Rightarrow>
    error + (result_entry list \<times> 'c registry)" where
  "complete_loop [] results reg = Inr (results, reg)"
| "complete_loop ((mid, outcome) # fs) results reg =
     (case outcome of
        Inr wr \<Rightarrow>
          (case update_status mid ''completed'' reg of
             Inr reg' \<Rightarrow> complete_loop fs (results @ [Success wr]) reg'
           | Inl exc \<Rightarrow>
               (case update_status mid ''failed'' reg of
                  Inl e \<Rightarrow> Inl e
                | Inr reg' \<Rightarrow>
                    complete_loop fs (results @ [Success wr, Failure mid (str_exc exc)]) reg'))
      | Inl msg \<Rightarrow>
          (case update_status mid ''failed'' reg of
             Inl e \<Rightarrow> Inl e
           | Inr reg' \<Rightarrow> complete_loop fs (results @ [Failure mid msg]) reg'))"

definition is_success :: "result_entry \<Rightarrow> bool" where
  "is_success r = (case r of Success wr \<Rightarrow> True | Failure mid msg \<Rightarrow> False)"

definition refusal_delta :: "result_entry \<Rightarrow> real" where
  "refusal_delta r = (case r of Success wr \<Rightarrow> delta (refusal_rates wr) | Failure mid msg \<Rightarrow> 0)"

definition benchmark_delta :: "result_entry \<Rightarrow> real" where
  "benchmark_delta r = (case r of Success wr \<Rightarrow> delta (benchmark_scores wr) | Failure mid msg \<Rightarrow> 0)"

definition make_summary :: "ref list \<Rightarrow> result_entry list \<Rightarrow> (string \<times> num) list" where
  "make_summary ms results =
     (let successful = filter is_success results in
      [(''total_models'', IntV (int (length ms))),
       (''processed_models'', IntV (int (length results))),
       (''successful_models'', IntV (int (length successful))),
       (''avg_refusal_reduction'',
          FloatV (if successful \<noteq> []
                  then sum_list (map refusal_delta successful) / real (length successful)
                  else 0)),
       (''avg_benchmark_gain'',
          FloatV (if successful \<noteq> []
                  then sum_list (map benchmark_delta successful) / real (length successful)
                  else 0))])"

definition run_batch ::
  "(string \<Rightarrow> 'c \<Rightarrow> string + workflow_result) \<Rightarrow> (future list \<Rightarrow> future list) \<Rightarrow> int \<Rightarrow>
   'c batch_state \<Rightarrow> error + (report \<times> 'c batch_state)" where
  "run_batch run_for_model as_completed max_workers st =
     (let ms = list_models (registry st) in
      if ms = [] then Inr (\<lparr>summary = [], models = [], registry_snapshot = None\<rparr>, st)
      else if max_workers \<le> 0 then Inl (ValueError ''max_workers must be greater than 0'')
      else
        (case submit_loop run_for_model ms (registry st) [] of
           Inl e \<Rightarrow> Inl e
         | Inr (future_map, reg1) \<Rightarrow>
             (case complete_loop (as_completed future_map) [] reg1 of
                Inl e \<Rightarrow> Inl e
              | Inr (results, reg2) \<Rightarrow>
                  (let rep = \<lparr>summary = make_summary ms results, models = results,
                              registry_snapshot = Some (export_records reg2)\<rparr>
                   in Inr (rep, \<lparr>registry = reg2, batch_results_file = Some rep\<rparr>)))))"


text \<open>The units of a batch: the model id and connector of every record that has a
  connector, in registry order.\<close>

definition units_of :: "'c registry \<Rightarrow> ref list \<Rightarrow> (string \<times> 'c) list" where
  "units_of reg rs =
     List.map_filter
       (\<lambda>r. map_option (Pair (model_id (objects reg r))) (get_connector (model_id (objects reg r)) reg))
       rs"





definition same_shape :: "'c registry \<Rightarrow> 'c registry \<Rightarrow> bool" where
  "same_shape reg reg' =
     (records reg' = records reg \<and> connectors reg' = connectors reg \<and>
      (\<forall>r. model_id (objects reg' r) = model_id (objects reg r)))"





lemma same_shape_refl [simp]: "same_shape reg reg"
  by (simp add: same_shape_def)




lemma units_of_Nil [simp]: "units_of reg [] = []"
  by (simp add: units_of_def map_filter_simps)





















definition demo_result :: "string \<Rightarrow> workflow_result" where
  "demo_result mid = \<lparr>wr_model_id = mid,
     refusal_rates = \<lparr>before = 1/2, after = 1/4, delta = 1/4\<rparr>,
     benchmark_scores = \<lparr>before = 1/2, after = 3/4, delta = 1/4\<rparr>,
     personality_shifts = \<lparr>before = 1, after = 1, delta = 0\<rparr>,
     wr_task_ids = []\<rparr>"

definition demo_run :: "string \<Rightarrow> nat \<Rightarrow> string + workflow_result" where
  "demo_run mid c = (if c = 2 then Inl ''connector down'' else Inr (demo_result mid))"














text \<open>
  Claim C10. For a registry with no record, \<open>run_batch\<close> returns
  \<^verbatim>\<open>{"models": [], "summary": {}}\<close>: the summary has none of the count and average
  keys, the report has no registry snapshot, and the state is returned as it was, so the
  batch results file is not written.
\<close>

theorem empty_registry_batch:
  assumes "records (registry st) = []"
  shows "run_batch run as_completed max_workers st =
           Inr (\<lparr>summary = [], models = [], registry_snapshot = None\<rparr>, st)"
  using assms by (simp add: run_batch_def list_models_def)

theorem empty_registry_batch_witness:
  "records (registry \<lparr>registry = new_registry 32 :: nat registry, batch_results_file = None\<rparr>) = [] \<and>
   run_batch demo_run rev 10 \<lparr>registry = new_registry 32, batch_results_file = None\<rparr> =
     Inr (\<lparr>summary = [], models = [], registry_snapshot = None\<rparr>,
          \<lparr>registry = new_registry 32, batch_results_file = None\<rparr>)"
proof -
  have e: "records (registry \<lparr>registry = new_registry 32 :: nat registry, batch_results_file = None\<rparr>) = []"
    by (simp add: new_registry_def)
  show ?thesis
    using e empty_registry_batch [OF e, of demo_run rev 10]
    by simp
qed

end
